theory Spec2Isabelle
  imports Complex_Main "HOL-Library.Multiset"
begin

chapter \<open>The model\<close>

section \<open>Common data: results and the document store\<close>

text \<open>
  Every service method of the backend returns an envelope \<^verbatim>\<open>{success: true, ...}\<close> or
  \<^verbatim>\<open>{success: false, error}\<close>; an exception thrown inside a method is caught by the
  method's own \<^verbatim>\<open>try/catch\<close> and turned into the second form.
\<close>

datatype 'a result = Failure string | Success 'a

text \<open>
  A vehicle document of the \<^verbatim>\<open>vehicles\<close> collection. Documents are created by
  \<^verbatim>\<open>registerVehicle\<close> only, which spreads the request body and then writes
  \<^verbatim>\<open>status\<close>, \<^verbatim>\<open>lastSeen\<close>, \<^verbatim>\<open>createdAt\<close> and \<^verbatim>\<open>updatedAt\<close>; so these fields are
  always present. The body is spread unfiltered, so a document may carry a field named
  \<^verbatim>\<open>vehicleId\<close> of its own (\<open>vehicleIdField\<close>) and may lack \<^verbatim>\<open>location\<close>.
  Timestamps are milliseconds since the epoch, coordinates are JavaScript numbers
  idealised as reals.
\<close>

record location =
  latitude :: real
  longitude :: real

record vehicle =
  vehicleIdField :: "string option"
  location :: "location option"
  status :: string
  lastSeen :: int
  updatedAt :: int
  lastActivity :: "int option"

text \<open>A collection is the list of its documents (document id, data) in the store's order.\<close>

type_synonym vehicles = "(string \<times> vehicle) list"

section \<open>Vehicle status from the time since last seen\<close>

text \<open>
  \<^verbatim>\<open>const timeDiff = (now - lastSeen) / 1000 / 60; // minutes\<close>
\<close>

definition timeDiff :: "int \<Rightarrow> int \<Rightarrow> real" where
  "timeDiff now seen = real_of_int (now - seen) / 1000 / 60"

text \<open>\<^verbatim>\<open>Math.round\<close> rounds to the nearest integer, halves upwards.\<close>

definition Math_round :: "real \<Rightarrow> int" where
  "Math_round x = \<lfloor>x + 1 / 2\<rfloor>"



text \<open>
  \<^verbatim>\<open>updateVehicleStatus()\<close> of \<^verbatim>\<open>dataUpdateJob.js\<close>: the periodic sweep. It reads the
  documents whose stored status is \<^verbatim>\<open>'active'\<close>, queues one update per document whose
  computed status differs from the stored one, and commits the batch when it is not empty.
\<close>

definition sweepStatus :: "int \<Rightarrow> vehicle \<Rightarrow> string" where
  "sweepStatus now vehicleData =
     (let t = timeDiff now (lastSeen vehicleData)
      in if t > 30 then ''inactive''
         else if t > 10 then ''warning''
         else ''active'')"

definition sweepBatch :: "int \<Rightarrow> vehicles \<Rightarrow> (string \<times> string) list" where
  "sweepBatch now snapshot =
     foldl (\<lambda>batch (docId, vehicleData).
              (let newStatus = sweepStatus now vehicleData
               in if newStatus \<noteq> status vehicleData
                  then batch @ [(docId, newStatus)] else batch))
           [] snapshot"

definition batchUpdate :: "int \<Rightarrow> vehicles \<Rightarrow> string \<times> string \<Rightarrow> vehicles" where
  "batchUpdate now vs u =
     map (\<lambda>(docId, d). if docId = fst u
                         then (docId, d\<lparr>status := snd u, updatedAt := now\<rparr>)
                         else (docId, d)) vs"

definition updateVehicleStatus :: "vehicles \<Rightarrow> int \<Rightarrow> vehicles" where
  "updateVehicleStatus vs now =
     (let snapshot = filter (\<lambda>(docId, d). status d = ''active'') vs;
          batch = sweepBatch now snapshot
      in if length batch > 0 then foldl (batchUpdate now) vs batch else vs)"


section \<open>JavaScript numbers beyond the reals\<close>

text \<open>
  Coordinates, distances, times and scores are idealised as reals. The two places where
  that code can leave the reals are written out: a division by zero gives an infinity or
  \<^verbatim>\<open>NaN\<close>, and \<^verbatim>\<open>Math.sqrt\<close> of a negative number gives \<^verbatim>\<open>NaN\<close>. Every comparison with
  \<^verbatim>\<open>NaN\<close> is false. The trend of the daily totals compares a computed percentage with a
  threshold that the exact percentage can meet, so its arithmetic is modelled with the
  rounding of the machine, in the next section.
\<close>

datatype jsnum = Num real | PosInf | NegInf | NaN

definition js_div :: "real \<Rightarrow> real \<Rightarrow> jsnum" where
  "js_div x y =
     (if y \<noteq> 0 then Num (x / y)
      else if x > 0 then PosInf else if x < 0 then NegInf else NaN)"

fun js_add :: "real \<Rightarrow> jsnum \<Rightarrow> jsnum" where
  "js_add x (Num y) = Num (x + y)"
| "js_add x PosInf = PosInf"
| "js_add x NegInf = NegInf"
| "js_add x NaN = NaN"

fun js_sub :: "real \<Rightarrow> jsnum \<Rightarrow> jsnum" where
  "js_sub x (Num y) = Num (x - y)"
| "js_sub x PosInf = NegInf"
| "js_sub x NegInf = PosInf"
| "js_sub x NaN = NaN"

fun js_le :: "jsnum \<Rightarrow> jsnum \<Rightarrow> bool" where
  "js_le NaN y = False"
| "js_le x NaN = False"
| "js_le (Num x) (Num y) = (x \<le> y)"
| "js_le NegInf y = True"
| "js_le x PosInf = True"
| "js_le x y = False"

fun js_less :: "jsnum \<Rightarrow> jsnum \<Rightarrow> bool" where
  "js_less NaN y = False"
| "js_less x NaN = False"
| "js_less (Num x) (Num y) = (x < y)"
| "js_less PosInf y = False"
| "js_less x NegInf = False"
| "js_less x y = True"

text \<open>
  Where \<^verbatim>\<open>NaN\<close> is the only value beyond the reals that can arise, it is \<open>None\<close>.
\<close>

definition Math_sqrt :: "real \<Rightarrow> real option" where
  "Math_sqrt x = (if x < 0 then None else Some (sqrt x))"

text \<open>\<^verbatim>\<open>Math.atan2(y, x)\<close>: the angle of the point \<open>(x, y)\<close>, in \<open>(-\<pi>, \<pi>]\<close>.\<close>

definition Math_atan2 :: "real \<Rightarrow> real \<Rightarrow> real" where
  "Math_atan2 y x =
     (if x > 0 then arctan (y / x)
      else if x < 0 \<and> y \<ge> 0 then arctan (y / x) + pi
      else if x < 0 then arctan (y / x) - pi
      else if y > 0 then pi / 2
      else if y < 0 then - (pi / 2)
      else 0)"

section \<open>Double-precision arithmetic\<close>

text \<open>
  A JavaScript number is an IEEE 754 binary64 value, and \<^verbatim>\<open>+\<close>, \<^verbatim>\<open>-\<close>, \<^verbatim>\<open>*\<close> and \<^verbatim>\<open>/\<close> return
  the exact result rounded to the nearest such value, a tie going to the value whose
  significand is even. For \<open>2\<^sup>e \<le> \<bar>x\<bar> < 2\<^sup>e\<^sup>+\<^sup>1\<close> the values next to \<open>x\<close> are the integer
  multiples of \<open>2\<^sup>e\<^sup>-\<^sup>5\<^sup>2\<close> (a significand of 53 bits), so \<open>toDouble x\<close> rounds \<open>x / 2\<^sup>e\<^sup>-\<^sup>5\<^sup>2\<close> to
  an integer.

  The exponent is not bounded and zero has no sign: \<open>toDouble\<close> is the rounding of
  binary64 on the numbers of \<open>inRange\<close>, zero and those from \<open>2\<^sup>-\<^sup>1\<^sup>0\<^sup>2\<^sup>2\<close> to \<open>2\<^sup>1\<^sup>0\<^sup>2\<^sup>3\<close> in absolute
  value, where binary64 neither overflows to an infinity nor loses precision to gradual
  underflow. The trend computation works on counts of records, on their means and on
  the ratio of two means: for the daily totals of fewer than \<open>2\<^sup>5\<^sup>3\<close> records every result
  that it rounds is in that range and the divisor is not zero
  (\<open>trend_arithmetic_in_range\<close> below).
\<close>

definition roundHalfEven :: "real \<Rightarrow> int" where
  "roundHalfEven y =
     (let f = \<lfloor>y\<rfloor>; r = y - real_of_int f
      in if r < 1 / 2 then f
         else if r > 1 / 2 then f + 1
         else if even f then f else f + 1)"

definition toDouble :: "real \<Rightarrow> real" where
  "toDouble x =
     (if x = 0 then 0
      else (let e = \<lfloor>log 2 \<bar>x\<bar>\<rfloor>;
                ulp = 2 powr (real_of_int e - 52)
            in real_of_int (roundHalfEven (x / ulp)) * ulp))"

definition inRange :: "real \<Rightarrow> bool" where
  "inRange x \<longleftrightarrow> x = 0 \<or> (1 / 2 ^ 1022 \<le> \<bar>x\<bar> \<and> \<bar>x\<bar> \<le> 2 ^ 1023)"

text \<open>
  The operators of \<^verbatim>\<open>calculateTrend\<close>. A quotient by zero is an infinity or \<^verbatim>\<open>NaN\<close>, and
  the product of an infinity or \<^verbatim>\<open>NaN\<close> with \<open>100\<close> is again one.
\<close>

definition dblAdd :: "real \<Rightarrow> real \<Rightarrow> real" where
  "dblAdd a b = toDouble (a + b)"

definition dblSub :: "real \<Rightarrow> real \<Rightarrow> real" where
  "dblSub a b = toDouble (a - b)"

definition dblDiv :: "real \<Rightarrow> real \<Rightarrow> jsnum" where
  "dblDiv x y =
     (if y \<noteq> 0 then Num (toDouble (x / y))
      else if x > 0 then PosInf else if x < 0 then NegInf else NaN)"

fun dblMul :: "jsnum \<Rightarrow> real \<Rightarrow> jsnum" where
  "dblMul (Num x) y = Num (toDouble (x * y))"
| "dblMul PosInf y = (if y > 0 then PosInf else if y < 0 then NegInf else NaN)"
| "dblMul NegInf y = (if y > 0 then NegInf else if y < 0 then PosInf else NaN)"
| "dblMul NaN y = NaN"

section \<open>The nearby-vehicle query\<close>

text \<open>
  \<^verbatim>\<open>calculateDistance(lat1, lon1, lat2, lon2)\<close> of \<^verbatim>\<open>v2vService.js\<close>: the haversine formula
  on a sphere of radius 6371 km.
\<close>

definition calculateDistance :: "real \<Rightarrow> real \<Rightarrow> real \<Rightarrow> real \<Rightarrow> real option" where
  "calculateDistance lat1 lon1 lat2 lon2 =
     (let R = 6371;
          dLat = (lat2 - lat1) * pi / 180;
          dLon = (lon2 - lon1) * pi / 180;
          a = sin (dLat / 2) * sin (dLat / 2) +
              cos (lat1 * pi / 180) * cos (lat2 * pi / 180) *
              sin (dLon / 2) * sin (dLon / 2)
      in case (Math_sqrt a, Math_sqrt (1 - a)) of
           (Some y, Some x) \<Rightarrow> Some (R * (2 * Math_atan2 y x))
         | _ \<Rightarrow> None)"

text \<open>
  An element of the returned list:
  \<^verbatim>\<open>{vehicleId: doc.id, ...data, distance: Math.round(distance * 100) / 100}\<close>.
  The spread comes after \<^verbatim>\<open>vehicleId\<close>, so a stored field of that name replaces the
  document id.
\<close>

record nearby_vehicle =
  vehicleId :: string
  nearbyData :: vehicle
  distance :: real

record nearby_result =
  nearbyList :: "nearby_vehicle list"
  nearbyCount :: nat
  nearbyRadius :: real

definition nearbyEntry :: "string \<Rightarrow> vehicle \<Rightarrow> real \<Rightarrow> nearby_vehicle" where
  "nearbyEntry docId d dkm =
     \<lparr>vehicleId = (case vehicleIdField d of None \<Rightarrow> docId | Some v \<Rightarrow> v),
      nearbyData = d,
      distance = real_of_int (Math_round (dkm * 100)) / 100\<rparr>"

text \<open>
  The store query: the five \<^verbatim>\<open>where\<close> clauses. A document without numeric coordinates
  matches no range filter.
\<close>

definition boxQuery :: "real \<Rightarrow> real \<Rightarrow> jsnum \<Rightarrow> jsnum \<Rightarrow> vehicles \<Rightarrow> vehicles" where
  "boxQuery minLat maxLat minLng maxLng vs =
     filter (\<lambda>(docId, d).
        (case location d of
           None \<Rightarrow> False
         | Some l \<Rightarrow> latitude l \<ge> minLat \<and> latitude l \<le> maxLat \<and>
                     js_le minLng (Num (longitude l)) \<and> js_le (Num (longitude l)) maxLng)
        \<and> status d = ''active'') vs"

text \<open>
  The body of \<^verbatim>\<open>snapshot.forEach\<close>. Reading \<^verbatim>\<open>data.location.latitude\<close> of a document
  without a location throws, which ends the method in its \<^verbatim>\<open>catch\<close>. A distance
  that is \<^verbatim>\<open>NaN\<close> fails the test \<^verbatim>\<open>distance <= radiusKm\<close>.
\<close>

definition nearbyStep ::
  "string \<Rightarrow> real \<Rightarrow> real \<Rightarrow> real \<Rightarrow> nearby_vehicle list result \<Rightarrow> string \<times> vehicle
     \<Rightarrow> nearby_vehicle list result" where
  "nearbyStep vid lat lng radiusKm acc doc =
     (case acc of
        Failure e \<Rightarrow> Failure e
      | Success nearbyVehicles \<Rightarrow>
          (if fst doc \<noteq> vid then
             (case location (snd doc) of
                None \<Rightarrow> Failure ''Cannot read properties of undefined (reading 'latitude')''
              | Some l \<Rightarrow>
                  (let dkm = calculateDistance lat lng (latitude l) (longitude l)
                   in case dkm of
                        None \<Rightarrow> Success nearbyVehicles
                      | Some dv \<Rightarrow>
                          if dv \<le> radiusKm
                          then Success (nearbyVehicles @ [nearbyEntry (fst doc) (snd doc) dv])
                          else Success nearbyVehicles))
           else Success nearbyVehicles))"

definition getNearbyVehicles :: "vehicles \<Rightarrow> string \<Rightarrow> real \<Rightarrow> nearby_result result" where
  "getNearbyVehicles vs vid radiusKm =
     (case map_of vs vid of
        None \<Rightarrow> Failure ''Vehicle not found''
      | Some vehicleData \<Rightarrow>
          (case location vehicleData of
             None \<Rightarrow> Failure ''Cannot destructure property 'latitude' of undefined''
           | Some loc \<Rightarrow>
               (let lat = latitude loc; lng = longitude loc;
                    latRange = radiusKm / 111;
                    lngRange = js_div radiusKm (111 * cos (lat * pi / 180));
                    minLat = lat - latRange;
                    maxLat = lat + latRange;
                    minLng = js_sub lng lngRange;
                    maxLng = js_add lng lngRange;
                    snapshot = boxQuery minLat maxLat minLng maxLng vs
                in case foldl (nearbyStep vid lat lng radiusKm) (Success []) snapshot of
                     Failure e \<Rightarrow> Failure e
                   | Success nearbyVehicles \<Rightarrow>
                       Success \<lparr>nearbyList = nearbyVehicles,
                                nearbyCount = length nearbyVehicles,
                                nearbyRadius = radiusKm\<rparr>)))"

text \<open>
  What the query selects, said once for the theorems: the bounding box of the reference
  point, the exact distance test, and the distance of a document that passes it.
\<close>

definition inBoundingBox :: "real \<Rightarrow> real \<Rightarrow> real \<Rightarrow> vehicle \<Rightarrow> bool" where
  "inBoundingBox lat lng radiusKm d =
     (case location d of
        None \<Rightarrow> False
      | Some l \<Rightarrow>
          latitude l \<ge> lat - radiusKm / 111 \<and> latitude l \<le> lat + radiusKm / 111 \<and>
          js_le (js_sub lng (js_div radiusKm (111 * cos (lat * pi / 180)))) (Num (longitude l)) \<and>
          js_le (Num (longitude l)) (js_add lng (js_div radiusKm (111 * cos (lat * pi / 180)))))"

definition withinRadius :: "real \<Rightarrow> real \<Rightarrow> real \<Rightarrow> vehicle \<Rightarrow> bool" where
  "withinRadius lat lng radiusKm d =
     (case location d of
        None \<Rightarrow> False
      | Some l \<Rightarrow>
          (case calculateDistance lat lng (latitude l) (longitude l) of
             None \<Rightarrow> False
           | Some dv \<Rightarrow> dv \<le> radiusKm))"

definition distanceFrom :: "real \<Rightarrow> real \<Rightarrow> vehicle \<Rightarrow> real" where
  "distanceFrom lat lng d =
     (case location d of
        None \<Rightarrow> 0
      | Some l \<Rightarrow>
          (case calculateDistance lat lng (latitude l) (longitude l) of
             None \<Rightarrow> 0
           | Some dv \<Rightarrow> dv))"

text \<open>An active vehicle at the given coordinates, for the concrete cases below.\<close>

definition vehicleAt :: "real \<Rightarrow> real \<Rightarrow> vehicle" where
  "vehicleAt lat lng =
     \<lparr>vehicleIdField = None, location = Some \<lparr>latitude = lat, longitude = lng\<rparr>,
      status = ''active'', lastSeen = 0, updatedAt = 0, lastActivity = None\<rparr>"

section \<open>Messages between vehicles\<close>

text \<open>
  The \<^verbatim>\<open>v2v_messages\<close> collection holds text messages and emergency messages. Document
  ids are generated by the store (\<^verbatim>\<open>add\<close>, \<^verbatim>\<open>doc()\<close>); the model draws them from a
  counter, so an id is never used twice. The store writes what it is given, with two
  exceptions that the methods' \<^verbatim>\<open>catch\<close> blocks turn into failures: \<^verbatim>\<open>add\<close> rejects a
  document with a field whose value is \<^verbatim>\<open>undefined\<close> (the client is created without
  \<^verbatim>\<open>ignoreUndefinedProperties\<close>), and \<^verbatim>\<open>update\<close> rejects when the document does not exist.
\<close>

record sender_info =
  senderInfoVehicleId :: string
  senderInfoUserId :: string

text \<open>
  The object the route \<^verbatim>\<open>POST /:vehicleId/emergency\<close> builds from the request body. The
  route validates \<^verbatim>\<open>emergencyType\<close>, \<^verbatim>\<open>description\<close> and \<^verbatim>\<open>severity\<close> and passes
  \<^verbatim>\<open>location: req.body.location\<close> as it is: \<open>emLocation\<close> is \<open>None\<close> when the body has no
  location, and the field then holds \<^verbatim>\<open>undefined\<close>.
\<close>

record emergency_data =
  emergencyType :: string
  emDescription :: string
  emSeverity :: string
  emLocation :: "location option"
  emSenderInfo :: sender_info

text \<open>
  \<^verbatim>\<open>{senderVehicleId, type: 'emergency', priority: 'high', ...emergencyData, timestamp,
  status: 'broadcast'}\<close>; a copy adds \<^verbatim>\<open>targetVehicleId\<close> and \<^verbatim>\<open>id\<close>.
\<close>

record emergency_message =
  emSenderVehicleId :: string
  emType :: string
  emPriority :: string
  emData :: emergency_data
  emTimestamp :: int
  emStatus :: string
  emTargetVehicleId :: "string option"
  emId :: "nat option"

text \<open>The \<^verbatim>\<open>messageData\<close> argument of \<^verbatim>\<open>sendV2VTextMessage\<close>.\<close>

record message_data =
  mdTargetVehicleId :: string
  mdMessage :: string
  mdType :: string
  mdPriority :: string
  mdAiEnhanced :: bool
  mdOriginalMessage :: string
  mdAiInsights :: "string option"
  mdSenderInfo :: sender_info

record text_message =
  tmSenderVehicleId :: string
  tmData :: message_data
  tmTimestamp :: int
  tmStatus :: string

datatype message_doc = TextMessage text_message | EmergencyMessage emergency_message

record store =
  vehicleDocs :: vehicles
  messageDocs :: "(nat \<times> message_doc) list"
  nextId :: nat

text \<open>
  Whether a message has a field whose value is \<^verbatim>\<open>undefined\<close>. A text message is built by
  \<open>processTextMessageWithAI\<close> from strings that are always there; of an emergency message
  only \<^verbatim>\<open>location\<close> can be \<^verbatim>\<open>undefined\<close>.
\<close>

fun hasUndefinedField :: "message_doc \<Rightarrow> bool" where
  "hasUndefinedField (TextMessage m) = False"
| "hasUndefinedField (EmergencyMessage m) = (emLocation (emData m) = None)"

text \<open>
  \<^verbatim>\<open>collection('v2v_messages').add(message)\<close>: rejects a message with an undefined field,
  and otherwise stores it and returns the new document's id.
\<close>

definition addMessage :: "store \<Rightarrow> message_doc \<Rightarrow> (nat \<times> store) result" where
  "addMessage st m =
     (if hasUndefinedField m
      then Failure ''Cannot use undefined as a Firestore value''
      else Success (nextId st,
                    st\<lparr>messageDocs := messageDocs st @ [(nextId st, m)],
                       nextId := Suc (nextId st)\<rparr>))"

text \<open>
  \<^verbatim>\<open>batch.commit()\<close> of a batch of \<^verbatim>\<open>set\<close> operations on fresh document references. The
  commit writes the whole batch, whatever its size; a copy has no undefined field when
  the master, which was accepted, has none.
\<close>

definition commitBatch :: "store \<Rightarrow> (nat \<times> message_doc) list \<Rightarrow> store" where
  "commitBatch st batch =
     st\<lparr>messageDocs := messageDocs st @ batch, nextId := nextId st + length batch\<rparr>"

record broadcast_result =
  messageId :: nat
  broadcastCount :: nat

text \<open>
  \<^verbatim>\<open>broadcastEmergencyMessage(senderVehicleId, emergencyData)\<close>. \<open>queueCopy\<close> is the body of
  \<^verbatim>\<open>nearbyVehicles.data.forEach\<close>: a fresh document reference and a \<^verbatim>\<open>batch.set\<close> of the
  message with \<^verbatim>\<open>targetVehicleId\<close> and \<^verbatim>\<open>id\<close> added. When the \<^verbatim>\<open>add\<close> of the master
  rejects, the method's \<^verbatim>\<open>catch\<close> returns the failure: the query is not run and nothing
  is stored.
\<close>

definition queueCopy ::
  "nat \<Rightarrow> emergency_message \<Rightarrow> (nat \<times> message_doc) list \<Rightarrow> nearby_vehicle
     \<Rightarrow> (nat \<times> message_doc) list" where
  "queueCopy fresh message batch vehicle =
     (let emergencyMessageRef = fresh + length batch
      in batch @ [(emergencyMessageRef,
                   EmergencyMessage (message\<lparr>emTargetVehicleId := Some (vehicleId vehicle),
                                              emId := Some emergencyMessageRef\<rparr>))])"

definition broadcastEmergencyMessage ::
  "store \<Rightarrow> string \<Rightarrow> emergency_data \<Rightarrow> int \<Rightarrow> store \<times> broadcast_result result" where
  "broadcastEmergencyMessage st senderVehicleId emergencyData now =
     (let message = \<lparr>emSenderVehicleId = senderVehicleId, emType = ''emergency'',
                      emPriority = ''high'', emData = emergencyData, emTimestamp = now,
                      emStatus = ''broadcast'', emTargetVehicleId = None, emId = None\<rparr>
      in case addMessage st (EmergencyMessage message) of
           Failure e \<Rightarrow> (st, Failure e)
         | Success (docRefId, st1) \<Rightarrow>
             (let nearbyVehicles = getNearbyVehicles (vehicleDocs st1) senderVehicleId 50;
                  st2 = (case nearbyVehicles of
                           Success nv \<Rightarrow>
                             commitBatch st1
                               (foldl (queueCopy (nextId st1) message) [] (nearbyList nv))
                         | Failure e \<Rightarrow> st1)
              in (st2, Success \<lparr>messageId = docRefId,
                                 broadcastCount = (case nearbyVehicles of
                                                     Success nv \<Rightarrow> nearbyCount nv
                                                   | Failure e \<Rightarrow> 0)\<rparr>)))"

section \<open>Text messages with AI enhancement\<close>

record sent_message =
  sentMessageId :: nat
  sentData :: text_message

text \<open>
  \<^verbatim>\<open>sendV2VTextMessage(senderVehicleId, messageData)\<close>: the message is added first, then
  the sender's vehicle document is updated; the update of a missing document rejects, the
  method's \<^verbatim>\<open>catch\<close> returns the failure, and the message stays stored.
\<close>

definition sendV2VTextMessage ::
  "store \<Rightarrow> string \<Rightarrow> message_data \<Rightarrow> int \<Rightarrow> store \<times> sent_message result" where
  "sendV2VTextMessage st senderVehicleId messageData now =
     (let message = \<lparr>tmSenderVehicleId = senderVehicleId,
                      tmData = messageData\<lparr>mdType := ''text''\<rparr>,
                      tmTimestamp = now, tmStatus = ''sent''\<rparr>
      in case addMessage st (TextMessage message) of
           Failure e \<Rightarrow> (st, Failure e)
         | Success (docRefId, st1) \<Rightarrow>
             (case map_of (vehicleDocs st1) senderVehicleId of
                None \<Rightarrow> (st1, Failure ''NOT_FOUND: No document to update'')
              | Some v \<Rightarrow>
                  (st1\<lparr>vehicleDocs :=
                         map (\<lambda>(docId, d).
                                if docId = senderVehicleId
                                then (docId, d\<lparr>lastActivity := Some now, updatedAt := now\<rparr>)
                                else (docId, d))
                             (vehicleDocs st1)\<rparr>,
                   Success \<lparr>sentMessageId = docRefId, sentData = message\<rparr>)))"

definition getVehicleInfo :: "vehicles \<Rightarrow> string \<Rightarrow> vehicle result" where
  "getVehicleInfo vs vid =
     (case map_of vs vid of
        None \<Rightarrow> Failure ''Vehicle not found''
      | Some d \<Rightarrow> Success d)"

text \<open>
  The hosted model, as \<^verbatim>\<open>enhanceV2VMessage\<close> sees it: whether an API key is configured,
  what \<^verbatim>\<open>generateContent\<close> answers to the prompt (a rejection or a text), and what the
  extraction \<^verbatim>\<open>text.match(/\\{[\\s\\S]*\\}/)\<close> followed by \<^verbatim>\<open>JSON.parse\<close> makes of a text
  (\<open>None\<close> when nothing matches or the parse throws).
\<close>

record parsed_reply =
  parsedEnhancedMessage :: "string option"
  parsedInsights :: "string option"
  parsedUrgency :: "string option"
  parsedMessageType :: "string option"

record gemini =
  apiKey :: "string option"
  generateContent :: "string result"
  extractJson :: "string \<Rightarrow> parsed_reply option"

record ai_response =
  enhancedMessage :: string
  insights :: string
  urgency :: string
  aiMessageType :: string

text \<open>\<^verbatim>\<open>x || d\<close> on a string that may be missing: the empty string is falsy.\<close>

definition orElse :: "string option \<Rightarrow> string \<Rightarrow> string" where
  "orElse x d = (case x of None \<Rightarrow> d | Some s \<Rightarrow> if s = [] then d else s)"

text \<open>
  \<^verbatim>\<open>String.prototype.trim\<close>. A string is a list of 8-bit characters here, the code units
  below 256; among them the white space and line terminators that \<^verbatim>\<open>trim\<close> strips are the
  tab, the line feed, the vertical tab, the form feed, the carriage return, the space and
  the no-break space. The others that \<^verbatim>\<open>trim\<close> strips lie above 255.
\<close>

definition isSpace :: "char \<Rightarrow> bool" where
  "isSpace c = (c = CHR '' '' \<or> c = CHR 0x09 \<or> c = CHR 0x0A \<or> c = CHR 0x0B \<or>
                c = CHR 0x0C \<or> c = CHR 0x0D \<or> c = CHR 0xA0)"

definition trim :: "string \<Rightarrow> string" where
  "trim s = rev (dropWhile isSpace (rev (dropWhile isSpace s)))"

definition enhanceV2VMessage :: "gemini \<Rightarrow> string \<Rightarrow> ai_response result" where
  "enhanceV2VMessage g originalMessage =
     (if orElse (apiKey g) [] = [] then Failure ''Gemini API key not configured''
      else case generateContent g of
             Failure e \<Rightarrow> Failure e
           | Success reply \<Rightarrow>
               (case extractJson g reply of
                  Some parsed \<Rightarrow>
                    Success \<lparr>enhancedMessage = orElse (parsedEnhancedMessage parsed) originalMessage,
                             insights = orElse (parsedInsights parsed) [],
                             urgency = orElse (parsedUrgency parsed) ''medium'',
                             aiMessageType = orElse (parsedMessageType parsed) ''info''\<rparr>
                | None \<Rightarrow>
                    Success \<lparr>enhancedMessage = trim reply,
                             insights = ''AI-enhanced message'',
                             urgency = ''medium'',
                             aiMessageType = ''info''\<rparr>))"

text \<open>
  \<^verbatim>\<open>processTextMessageWithAI(senderVehicleId, targetVehicleId, originalMessage, context)\<close>.
  The two vehicle lookups only feed the prompt; they return a failure envelope for a
  missing vehicle and never throw.
\<close>

definition processTextMessageWithAI ::
  "store \<Rightarrow> gemini \<Rightarrow> string \<Rightarrow> string \<Rightarrow> string \<Rightarrow> string \<Rightarrow> int
     \<Rightarrow> store \<times> sent_message result" where
  "processTextMessageWithAI st g senderVehicleId targetVehicleId originalMessage userId now =
     (let senderVehicle = getVehicleInfo (vehicleDocs st) senderVehicleId;
          targetVehicle = getVehicleInfo (vehicleDocs st) targetVehicleId;
          aiResponse = enhanceV2VMessage g originalMessage
      in case aiResponse of
           Failure e \<Rightarrow>
             sendV2VTextMessage st senderVehicleId
               \<lparr>mdTargetVehicleId = targetVehicleId,
                mdMessage = originalMessage,
                mdType = ''text'',
                mdPriority = ''medium'',
                mdAiEnhanced = False,
                mdOriginalMessage = originalMessage,
                mdAiInsights = None,
                mdSenderInfo = \<lparr>senderInfoVehicleId = senderVehicleId,
                                senderInfoUserId = userId\<rparr>\<rparr> now
         | Success r \<Rightarrow>
             sendV2VTextMessage st senderVehicleId
               \<lparr>mdTargetVehicleId = targetVehicleId,
                mdMessage = enhancedMessage r,
                mdType = ''text'',
                mdPriority = ''medium'',
                mdAiEnhanced = True,
                mdOriginalMessage = originalMessage,
                mdAiInsights = Some (insights r),
                mdSenderInfo = \<lparr>senderInfoVehicleId = senderVehicleId,
                                senderInfoUserId = userId\<rparr>\<rparr> now)"

section \<open>Deleting a chat-history entry\<close>

text \<open>
  A document of \<^verbatim>\<open>chat_history\<close>, as \<^verbatim>\<open>POST /api/chat/message\<close> writes it, and the
  collection as a map from document ids.
\<close>

record chat_entry =
  chatUserId :: string
  chatMessage :: string
  chatResponse :: string
  chatTimestamp :: int

type_synonym chat_history = "string \<rightharpoonup> chat_entry"

record http_response =
  statusCode :: nat
  success :: bool
  responseText :: string

text \<open>
  The handler of \<^verbatim>\<open>DELETE /api/chat/history/:id\<close>, after \<^verbatim>\<open>authenticateToken\<close> has put the
  token's \<^verbatim>\<open>uid\<close> into the request. \<^verbatim>\<open>res.json\<close> without \<^verbatim>\<open>res.status\<close> answers 200.
\<close>

definition deleteHistory :: "chat_history \<Rightarrow> string \<Rightarrow> string \<Rightarrow> chat_history \<times> http_response" where
  "deleteHistory history uid entryId =
     (case history entryId of
        None \<Rightarrow>
          (history, \<lparr>statusCode = 404, success = False,
                     responseText = ''Chat history entry not found''\<rparr>)
      | Some doc \<Rightarrow>
          if chatUserId doc \<noteq> uid
          then (history, \<lparr>statusCode = 403, success = False,
                          responseText = ''Unauthorized to delete this entry''\<rparr>)
          else (history(entryId := None),
                \<lparr>statusCode = 200, success = True,
                 responseText = ''Chat history entry deleted successfully''\<rparr>))"

section \<open>Severity of a weather observation\<close>

record weather_condition =
  conditionMain :: string
  conditionDescription :: string

text \<open>
  The fields of an OpenWeatherMap observation that the service reads: \<^verbatim>\<open>wind?.speed\<close>
  (absent when there is no \<^verbatim>\<open>wind\<close> object), \<^verbatim>\<open>main.temp\<close>, \<^verbatim>\<open>main.humidity\<close>, the
  \<^verbatim>\<open>weather\<close> array, and the time \<^verbatim>\<open>dt\<close> of a forecast item.
\<close>

record weather_data =
  windSpeed :: "real option"
  temp :: real
  humidity :: real
  weather :: "weather_condition list"
  dt :: int

text \<open>\<^verbatim>\<open>String.prototype.toLowerCase\<close> on ASCII text, and \<^verbatim>\<open>String.prototype.includes\<close>.\<close>

definition lowerChar :: "char \<Rightarrow> char" where
  "lowerChar c =
     (let n = (of_char c :: nat) in if 65 \<le> n \<and> n \<le> 90 then char_of (n + 32) else c)"

definition toLowerCase :: "string \<Rightarrow> string" where
  "toLowerCase s = map lowerChar s"

fun includes_str :: "string \<Rightarrow> string \<Rightarrow> bool" where
  "includes_str [] pat = (pat = [])"
| "includes_str (c # cs) pat = (take (length pat) (c # cs) = pat \<or> includes_str cs pat)"

text \<open>
  \<^verbatim>\<open>getWeatherSeverity(weatherData)\<close>. Reading \<^verbatim>\<open>weather[0].main\<close> of an empty array
  throws. The thresholds \<^verbatim>\<open>20.8\<close>, \<^verbatim>\<open>13.9\<close> and \<^verbatim>\<open>10.8\<close> are the decimal numbers the
  source writes.
\<close>

definition getWeatherSeverity :: "weather_data \<Rightarrow> string result" where
  "getWeatherSeverity weatherData =
     (case weather weatherData of
        [] \<Rightarrow> Failure ''Cannot read properties of undefined (reading 'main')''
      | w0 # _ \<Rightarrow>
          (let wind = (case windSpeed weatherData of None \<Rightarrow> 0 | Some s \<Rightarrow> s);
               temperature = temp weatherData;
               weatherCondition = toLowerCase (conditionMain w0);
               descr = toLowerCase (conditionDescription w0)
           in Success
                (if wind > 208 / 10 \<or> temperature > 45 \<or> temperature < - 30 then ''critical''
                 else if includes_str weatherCondition ''tornado'' \<or>
                         includes_str weatherCondition ''hurricane'' then ''critical''
                 else if wind > 139 / 10 \<or> temperature > 40 \<or> temperature < - 20 then ''high''
                 else if includes_str weatherCondition ''thunderstorm'' \<and>
                         includes_str descr ''heavy'' then ''high''
                 else if wind > 108 / 10 \<or> temperature > 35 \<or> temperature < - 10 then ''medium''
                 else if includes_str weatherCondition ''thunderstorm'' \<or>
                         includes_str weatherCondition ''blizzard'' then ''medium''
                 else ''low'')))"

text \<open>\<^verbatim>\<open>isSevereWeather(weatherData)\<close>: whether an observation becomes an alert at all.\<close>

definition isSevereWeather :: "weather_data \<Rightarrow> bool result" where
  "isSevereWeather weatherData =
     (case weather weatherData of
        [] \<Rightarrow> Failure ''Cannot read properties of undefined (reading 'main')''
      | w0 # _ \<Rightarrow>
          (let wind = (case windSpeed weatherData of None \<Rightarrow> 0 | Some s \<Rightarrow> s);
               temperature = temp weatherData;
               hum = humidity weatherData;
               weatherCondition = toLowerCase (conditionMain w0);
               descr = toLowerCase (conditionDescription w0);
               severeConditions = [''thunderstorm'', ''tornado'', ''hurricane'', ''typhoon'',
                                   ''blizzard'', ''snowstorm'', ''sandstorm'', ''duststorm'']
           in Success
                (if wind > 139 / 10 then True
                 else if temperature > 40 \<or> temperature < - 20 then True
                 else if list_ex (\<lambda>condition. includes_str weatherCondition condition \<or>
                                               includes_str descr condition) severeConditions
                      then True
                 else if includes_str descr ''heavy'' \<or> includes_str descr ''extreme'' then True
                 else if temperature > 30 \<and> hum > 80 then True
                 else False)))"

section \<open>Analytics: geographic hotspots\<close>

text \<open>
  An element of the \<^verbatim>\<open>coordinates\<close> array the analytics build from the disaster records.
  The callers keep the elements whose \<^verbatim>\<open>lat\<close> and \<^verbatim>\<open>lng\<close> are truthy, so both are
  numbers; \<^verbatim>\<open>severity\<close> is absent in two of the three callers.
\<close>

record coordinate =
  lat :: real
  lng :: real
  coordType :: string
  coordSeverity :: "string option"

record grid_cell =
  cellLat :: int
  cellLng :: int
  cellCount :: nat
  cellDisasters :: "coordinate list"




text \<open>
  The grid is a JavaScript object keyed by the string \<^verbatim>\<open>`${gridLat},${gridLng}`\<close>; the
  key determines the pair of integers and the pair determines the key, so the model keys
  the cells by the pair. \<^verbatim>\<open>Object.values\<close> lists the cells in the order of their creation.
\<close>

type_synonym grid = "((int \<times> int) \<times> grid_cell) list"

definition gridKey :: "coordinate \<Rightarrow> int \<times> int" where
  "gridKey coord = (\<lfloor>lat coord / 1\<rfloor> * 1, \<lfloor>lng coord / 1\<rfloor> * 1)"

definition addToGrid :: "grid \<Rightarrow> coordinate \<Rightarrow> grid" where
  "addToGrid g coord =
     (let key = gridKey coord;
          g1 = (if map_of g key = None
                then g @ [(key, \<lparr>cellLat = fst key, cellLng = snd key, cellCount = 0,
                                 cellDisasters = []\<rparr>)]
                else g)
      in map (\<lambda>(k, cell). if k = key
                            then (k, cell\<lparr>cellCount := cellCount cell + 1,
                                          cellDisasters := cellDisasters cell @ [coord]\<rparr>)
                            else (k, cell)) g1)"



text \<open>The grid after the first loop, and the hotspot the second loop makes of a cell.\<close>

definition gridOf :: "coordinate list \<Rightarrow> grid" where
  "gridOf cs = foldl addToGrid [] cs"



section \<open>Analytics: the trend of the daily totals\<close>

text \<open>
  \<^verbatim>\<open>calculateTrend(values)\<close> of \<^verbatim>\<open>analyticsService.js\<close>, every operation rounded as the
  machine rounds it: each addition of \<^verbatim>\<open>reduce((a, b) => a + b, 0)\<close>, the two divisions by
  the lengths, the subtraction, the division by \<^verbatim>\<open>firstAvg\<close> and the multiplication by
  \<open>100\<close>. Both halves are non-empty when the list has two values or more; the division by
  \<^verbatim>\<open>firstAvg\<close> is the one that can meet a zero.
\<close>

definition calculateTrend :: "real list \<Rightarrow> string" where
  "calculateTrend values =
     (if length values < 2 then ''stable''
      else
        (let firstHalf = take (length values div 2) values;
             secondHalf = drop (length values div 2) values;
             firstAvg = toDouble (foldl dblAdd 0 firstHalf / real (length firstHalf));
             secondAvg = toDouble (foldl dblAdd 0 secondHalf / real (length secondHalf));
             change = dblMul (dblDiv (dblSub secondAvg firstAvg) firstAvg) 100
         in if js_less (Num 10) change then ''increasing''
            else if js_less change (Num (- 10)) then ''decreasing''
            else ''stable''))"

text \<open>The value of \<^verbatim>\<open>change\<close> when \<^verbatim>\<open>firstAvg\<close> is not zero.\<close>

definition computedChange :: "real \<Rightarrow> real \<Rightarrow> real" where
  "computedChange a1 a2 = toDouble (toDouble (toDouble (a2 - a1) / a1) * 100)"

text \<open>
  The argument \<^verbatim>\<open>Object.values(dailyData).map(d => d.total)\<close> as \<^verbatim>\<open>analyzeTrends\<close> builds
  it: one bucket per calendar day on which a record falls, in the order the days first
  appear, counting the records of that day. The key is the date part of
  \<^verbatim>\<open>toISOString()\<close>, that is the UTC day of the record's time in milliseconds.
\<close>

definition dayOf :: "int \<Rightarrow> int" where
  "dayOf t = t div 86400000"

definition countDay :: "(int \<times> nat) list \<Rightarrow> int \<Rightarrow> (int \<times> nat) list" where
  "countDay dailyData t =
     (let date = dayOf t;
          d1 = (if map_of dailyData date = None then dailyData @ [(date, 0)] else dailyData)
      in map (\<lambda>(k, total). if k = date then (k, total + 1) else (k, total)) d1)"

definition dailyTotals :: "int list \<Rightarrow> real list" where
  "dailyTotals stamps = map (\<lambda>(k, total). real total) (foldl countDay [] stamps)"

text \<open>The claim's words: the mean of a list and the percent change between two means.\<close>

definition mean :: "real list \<Rightarrow> real" where
  "mean xs = sum_list xs / real (length xs)"

definition percentChange :: "real \<Rightarrow> real \<Rightarrow> real" where
  "percentChange firstMean secondMean = (secondMean - firstMean) / firstMean * 100"

section \<open>Aggregating the four feeds\<close>

text \<open>
  A disaster record, with the fields the aggregation reads. The earthquake and tsunami
  adapters write \<^verbatim>\<open>time: new Date(feature.properties.time)\<close>; the weather adapter writes
  \<^verbatim>\<open>startTime\<close> and \<^verbatim>\<open>endTime\<close>, the volcano adapter \<^verbatim>\<open>lastEruption\<close>, and neither writes a
  field named \<^verbatim>\<open>time\<close>. \<open>time\<close> is \<open>None\<close> for a record without the field:
  \<^verbatim>\<open>new Date(undefined)\<close> is an invalid date, whose number is \<^verbatim>\<open>NaN\<close>.
\<close>

record disaster =
  disasterId :: string
  disasterType :: string
  time :: "int option"

record usgs_feature =
  featureId :: string
  featureTime :: int

definition earthquakeRecord :: "usgs_feature \<Rightarrow> disaster" where
  "earthquakeRecord feature =
     \<lparr>disasterId = featureId feature, disasterType = ''earthquake'',
      time = Some (featureTime feature)\<rparr>"

definition tsunamiRecord :: "usgs_feature \<Rightarrow> disaster" where
  "tsunamiRecord feature =
     \<lparr>disasterId = ''tsunami_'' @ featureId feature, disasterType = ''tsunami'',
      time = Some (featureTime feature)\<rparr>"

definition weatherAlertRecord :: "string \<Rightarrow> disaster" where
  "weatherAlertRecord alertId =
     \<lparr>disasterId = alertId, disasterType = ''weather'', time = None\<rparr>"

definition volcanicRecord :: "string \<Rightarrow> disaster" where
  "volcanicRecord volcanoId =
     \<lparr>disasterId = ''volcano_'' @ volcanoId, disasterType = ''volcanic'', time = None\<rparr>"

text \<open>An element of the array \<^verbatim>\<open>Promise.allSettled\<close> resolves to.\<close>

datatype 'a settled = Rejected string | Fulfilled 'a

text \<open>
  \<^verbatim>\<open>(a, b) => new Date(b.time) - new Date(a.time)\<close>, and the number the sort makes of a
  comparator's answer: \<^verbatim>\<open>NaN\<close> counts as \<open>0\<close>.
\<close>

definition timeComparator :: "disaster \<Rightarrow> disaster \<Rightarrow> jsnum" where
  "timeComparator a b =
     (case (time b, time a) of
        (Some tb, Some ta) \<Rightarrow> Num (real_of_int (tb - ta))
      | _ \<Rightarrow> NaN)"

definition sortCompare :: "('a \<Rightarrow> 'a \<Rightarrow> jsnum) \<Rightarrow> 'a \<Rightarrow> 'a \<Rightarrow> real" where
  "sortCompare comparefn x y =
     (case comparefn x y of Num v \<Rightarrow> v | PosInf \<Rightarrow> 1 | NegInf \<Rightarrow> - 1 | NaN \<Rightarrow> 0)"

text \<open>
  \<^verbatim>\<open>Array.prototype.sort\<close> with a comparator. For a consistent comparator the language
  fixes the result: the stable sorted permutation, which every stable sort computes. For a
  comparator that is not consistent, as one that answers \<^verbatim>\<open>NaN\<close> for some pairs, the order
  is the engine's. The model is the stable insertion sort that moves each element to the
  left past the neighbours that compare greater, nearest first; \<open>insertLeftward\<close> works on
  the sorted prefix in reverse. V8 sorts a short array by finding its initial run and
  placing each later element by binary search, so with an inconsistent comparator it can
  put an element that follows a record without \<^verbatim>\<open>time\<close> further left than this model does.
  The two agree on every array when the comparator is consistent, and with
  \<open>timeComparator\<close> on every array in which no record has a later time than the record
  before it, a pair with a missing time counting as in order: both leave such an array as
  it is.
\<close>

fun insertLeftward :: "('a \<Rightarrow> 'a \<Rightarrow> real) \<Rightarrow> 'a \<Rightarrow> 'a list \<Rightarrow> 'a list" where
  "insertLeftward c x [] = [x]"
| "insertLeftward c x (y # ys) =
     (if c y x > 0 then y # insertLeftward c x ys else x # y # ys)"

definition jsSort :: "('a \<Rightarrow> 'a \<Rightarrow> jsnum) \<Rightarrow> 'a list \<Rightarrow> 'a list" where
  "jsSort comparefn xs =
     rev (foldl (\<lambda>sortedRev x. insertLeftward (sortCompare comparefn) x sortedRev) [] xs)"

record all_disasters =
  allData :: "disaster list"
  allCount :: nat

text \<open>
  \<^verbatim>\<open>getAllDisasters()\<close>, from the four settled feeds on. \<open>pushFeed\<close> is one of the four
  \<^verbatim>\<open>if (feed.status === 'fulfilled' && feed.value.success) allDisasters.push(...)\<close>.
\<close>

definition pushFeed :: "disaster list \<Rightarrow> disaster list result settled \<Rightarrow> disaster list" where
  "pushFeed allDisasters feed =
     (case feed of
        Fulfilled (Success d) \<Rightarrow> allDisasters @ d
      | Fulfilled (Failure e) \<Rightarrow> allDisasters
      | Rejected e \<Rightarrow> allDisasters)"

definition getAllDisasters ::
  "disaster list result settled \<Rightarrow> disaster list result settled \<Rightarrow>
   disaster list result settled \<Rightarrow> disaster list result settled \<Rightarrow> all_disasters result" where
  "getAllDisasters earthquakes weatherAlerts tsunamiWarnings volcanicActivity =
     (let a1 = pushFeed [] earthquakes;
          a2 = pushFeed a1 weatherAlerts;
          a3 = pushFeed a2 tsunamiWarnings;
          a4 = pushFeed a3 volcanicActivity;
          allDisasters = jsSort timeComparator a4
      in Success \<lparr>allData = allDisasters, allCount = length allDisasters\<rparr>)"

text \<open>Descending order of the \<^verbatim>\<open>time\<close> field, for records that all have one.\<close>

definition descendingByTime :: "disaster list \<Rightarrow> bool" where
  "descendingByTime ds =
     sorted_wrt (\<lambda>a b. case (time a, time b) of
                          (Some ta, Some tb) \<Rightarrow> ta \<ge> tb
                        | _ \<Rightarrow> False) ds"

chapter \<open>Properties\<close>

section \<open>Properties: vehicle status from the time since last seen\<close>

subsection \<open>Both paths compute the same function of the elapsed minutes\<close>











text \<open>
  The sweep reads the documents whose stored status is \<^verbatim>\<open>active\<close> only. A vehicle stored as
  \<^verbatim>\<open>warning\<close> and last seen 33 minutes ago is not read: its stored status stays
  \<^verbatim>\<open>warning\<close>, while the read path reports \<^verbatim>\<open>inactive\<close>.
\<close>

lemma sweep_leaves_vehicle_stored_as_warning:
  "map_of (updateVehicleStatus [(''v1'', \<lparr>vehicleIdField = None, location = None,
        status = ''warning'', lastSeen = 0, updatedAt = 0, lastActivity = None\<rparr>)] 1980000) ''v1'' =
     Some \<lparr>vehicleIdField = None, location = None, status = ''warning'', lastSeen = 0,
           updatedAt = 0, lastActivity = None\<rparr> \<and>
   sweepStatus 1980000 \<lparr>vehicleIdField = None, location = None,
        status = ''warning'', lastSeen = 0, updatedAt = 0, lastActivity = None\<rparr> = ''inactive''"
  by (simp add: updateVehicleStatus_def sweepBatch_def sweepStatus_def timeDiff_def Let_def)


section \<open>Properties: the nearby-vehicle query\<close>

subsection \<open>What the query returns\<close>

lemma foldl_nearbyStep:
  "\<forall>doc \<in> set snap. location (snd doc) \<noteq> None \<Longrightarrow>
   foldl (nearbyStep vid rlat rlng R) (Success acc) snap =
     Success (acc @ map (\<lambda>(docId, d). nearbyEntry docId d (distanceFrom rlat rlng d))
                      (filter (\<lambda>(docId, d). docId \<noteq> vid \<and> withinRadius rlat rlng R d) snap))"
proof (induction snap arbitrary: acc)
  case Nil
  then show ?case by simp
next
  case (Cons doc snap)
  obtain docId d where doc: "doc = (docId, d)" by (cases doc)
  from Cons.prems obtain l where l: "location d = Some l" by (auto simp: doc)
  have rest: "\<forall>doc \<in> set snap. location (snd doc) \<noteq> None" using Cons.prems by simp
  show ?case
  proof (cases "docId \<noteq> vid \<and> withinRadius rlat rlng R d")
    case True
    then obtain dv where dv: "calculateDistance rlat rlng (latitude l) (longitude l) = Some dv"
        "dv \<le> R"
      using l by (auto simp: withinRadius_def split: option.splits)
    have "nearbyStep vid rlat rlng R (Success acc) doc =
            Success (acc @ [nearbyEntry docId d (distanceFrom rlat rlng d)])"
      using True l dv by (simp add: nearbyStep_def doc distanceFrom_def)
    then show ?thesis using True Cons.IH [OF rest] by (simp add: doc)
  next
    case False
    have "nearbyStep vid rlat rlng R (Success acc) doc = Success acc"
      using False l by (auto simp: nearbyStep_def doc withinRadius_def split: option.splits)
    then show ?thesis using False Cons.IH [OF rest] by (simp add: doc)
  qed
qed

lemma boxQuery_eq:
  "boxQuery (rlat - R / 111) (rlat + R / 111)
       (js_sub rlng (js_div R (111 * cos (rlat * pi / 180))))
       (js_add rlng (js_div R (111 * cos (rlat * pi / 180)))) vs =
     filter (\<lambda>(docId, d). inBoundingBox rlat rlng R d \<and> status d = ''active'') vs"
  unfolding boxQuery_def inBoundingBox_def
  by (rule filter_cong) (auto split: option.splits)

lemma boxQuery_located:
  "\<forall>doc \<in> set (boxQuery a b c e vs). location (snd doc) \<noteq> None"
  by (auto simp: boxQuery_def split: option.splits)

lemma getNearbyVehicles_eq:
  assumes "map_of vs vid = Some ref" and "location ref = Some loc"
  shows "getNearbyVehicles vs vid R =
     Success \<lparr>nearbyList =
        map (\<lambda>(docId, d). nearbyEntry docId d (distanceFrom (latitude loc) (longitude loc) d))
          (filter (\<lambda>(docId, d). inBoundingBox (latitude loc) (longitude loc) R d \<and>
                     status d = ''active'' \<and> docId \<noteq> vid \<and>
                     withinRadius (latitude loc) (longitude loc) R d) vs),
        nearbyCount = length
          (filter (\<lambda>(docId, d). inBoundingBox (latitude loc) (longitude loc) R d \<and>
                     status d = ''active'' \<and> docId \<noteq> vid \<and>
                     withinRadius (latitude loc) (longitude loc) R d) vs),
        nearbyRadius = R\<rparr>"
proof -
  let ?rlat = "latitude loc" and ?rlng = "longitude loc"
  let ?snap = "boxQuery (?rlat - R / 111) (?rlat + R / 111)
       (js_sub ?rlng (js_div R (111 * cos (?rlat * pi / 180))))
       (js_add ?rlng (js_div R (111 * cos (?rlat * pi / 180)))) vs"
  have fold: "foldl (nearbyStep vid ?rlat ?rlng R) (Success []) ?snap =
     Success (map (\<lambda>(docId, d). nearbyEntry docId d (distanceFrom ?rlat ?rlng d))
                      (filter (\<lambda>(docId, d). docId \<noteq> vid \<and> withinRadius ?rlat ?rlng R d) ?snap))"
    using foldl_nearbyStep [OF boxQuery_located, of vid ?rlat ?rlng R "[]"] by simp
  have filt: "filter (\<lambda>(docId, d). docId \<noteq> vid \<and> withinRadius ?rlat ?rlng R d) ?snap =
      filter (\<lambda>(docId, d). inBoundingBox ?rlat ?rlng R d \<and>
                     status d = ''active'' \<and> docId \<noteq> vid \<and>
                     withinRadius ?rlat ?rlng R d) vs"
    unfolding boxQuery_eq by (simp add: case_prod_unfold conj_ac)
  show ?thesis
    using assms fold unfolding filt
    by (simp add: getNearbyVehicles_def Let_def)
qed

text \<open>
  Claim C1: for every reference vehicle with stored coordinates and every radius \<open>R\<close>, the
  query succeeds, and every element of the returned list was built from a stored document
  whose haversine distance from the reference coordinates, as \<open>calculateDistance\<close>
  computes it, is at most \<open>R\<close> and whose document id is not the reference vehicle's id.
\<close>

theorem nearby_within_radius_excluding_self:
  assumes "map_of vs vid = Some ref" and "location ref = Some loc"
  shows "\<exists>res. getNearbyVehicles vs vid R = Success res \<and>
           (\<forall>e \<in> set (nearbyList res).
              \<exists>docId d l dv. (docId, d) \<in> set vs \<and> location d = Some l \<and>
                 e = nearbyEntry docId d dv \<and>
                 calculateDistance (latitude loc) (longitude loc) (latitude l) (longitude l)
                   = Some dv \<and>
                 dv \<le> R \<and> docId \<noteq> vid)"
proof -
  have "withinRadius rlat rlng R d \<Longrightarrow>
          \<exists>l dv. location d = Some l \<and>
            calculateDistance rlat rlng (latitude l) (longitude l) = Some dv \<and>
            dv \<le> R \<and> distanceFrom rlat rlng d = dv" for rlat rlng d
    by (auto simp: withinRadius_def distanceFrom_def split: option.splits)
  then show ?thesis
    unfolding getNearbyVehicles_eq [OF assms]
    by (simp add: image_iff Bex_def) blast
qed

lemma calculateDistance_same_point: "calculateDistance 0 0 0 0 = Some 0"
  by (simp add: calculateDistance_def Math_sqrt_def Math_atan2_def)

subsection \<open>Distances along the equator\<close>

lemma equator_distance:
  "calculateDistance 0 lon1 0 lon2 =
     Some (6371 * (2 * Math_atan2 \<bar>sin ((lon2 - lon1) * pi / 180 / 2)\<bar>
                                  \<bar>cos ((lon2 - lon1) * pi / 180 / 2)\<bar>))"
proof -
  let ?x = "(lon2 - lon1) * pi / 180 / 2"
  have c: "1 - sin ?x * sin ?x = cos ?x * cos ?x"
    using sin_cos_squared_add [of ?x] by (simp add: power2_eq_square algebra_simps)
  have s1: "Math_sqrt (sin ?x * sin ?x) = Some \<bar>sin ?x\<bar>"
    by (simp add: Math_sqrt_def not_less [symmetric] mult_less_0_iff)
  have s2: "Math_sqrt (1 - sin ?x * sin ?x) = Some \<bar>cos ?x\<bar>"
    unfolding c by (simp add: Math_sqrt_def not_less [symmetric] mult_less_0_iff)
  show ?thesis
    using s1 s2 by (simp add: calculateDistance_def)
qed

lemma atan2_sin_cos: "0 \<le> e \<Longrightarrow> e < pi / 2 \<Longrightarrow> Math_atan2 (sin e) (cos e) = e"
proof -
  assume e: "0 \<le> e" "e < pi / 2"
  then have "cos e > 0" by (simp add: cos_gt_zero_pi)
  moreover have "arctan (sin e / cos e) = e"
    using arctan_tan [of e] e by (simp add: tan_def)
  ultimately show ?thesis by (simp add: Math_atan2_def)
qed

lemma antimeridian_distance:
  "calculateDistance 0 (17999 / 100) 0 (- (17999 / 100)) = Some (6371 * (2 * (pi / 18000)))"
proof -
  let ?e = "pi / 18000"
  have x: "(- (17999 / 100) - 17999 / 100) * pi / 180 / 2 = - (pi - ?e)"
    by (simp add: field_simps)
  have e: "0 \<le> ?e" "?e < pi / 2" by simp_all
  have "sin (- (pi - ?e)) = - sin ?e"
    by (simp only: sin_minus sin_pi_minus)
  moreover have "0 \<le> sin ?e"
    by (rule sin_ge_zero) simp_all
  ultimately have sn: "\<bar>sin (- (pi - ?e))\<bar> = sin ?e"
    by (simp only: abs_minus_cancel abs_of_nonneg)
  have "cos (- (pi - ?e)) = - cos ?e"
    by (simp only: cos_minus cos_pi_minus)
  moreover have "0 < cos ?e"
    by (rule cos_gt_zero_pi) simp_all
  ultimately have cs: "\<bar>cos (- (pi - ?e))\<bar> = cos ?e"
    by (simp only: abs_minus_cancel abs_of_pos)
  show ?thesis
    unfolding equator_distance x sn cs atan2_sin_cos [OF e] ..
qed

lemma antimeridian_distance_le: "6371 * (2 * (pi / 18000)) \<le> (10::real)"
  using pi_less_4 by simp

theorem nearby_within_radius_excluding_self_witness:
  "getNearbyVehicles [(''a'', vehicleAt 0 0), (''b'', vehicleAt 0 0)] ''a'' 10 =
     Success \<lparr>nearbyList = [nearbyEntry ''b'' (vehicleAt 0 0) 0], nearbyCount = 1,
              nearbyRadius = 10\<rparr> \<and>
   calculateDistance 0 0 0 0 = Some 0"
  using nearby_within_radius_excluding_self
    [of "[(''a'', vehicleAt 0 0), (''b'', vehicleAt 0 0)]" "''a''" "vehicleAt 0 0"
        "\<lparr>latitude = 0, longitude = 0\<rparr>" 10]
  by (simp add: getNearbyVehicles_def vehicleAt_def boxQuery_def js_div_def nearbyStep_def
      calculateDistance_same_point)

text \<open>
  Claim C10 at a concrete input. The claim is that the query returns every active vehicle
  within the radius. The box the store is queried with is an interval of longitudes around
  the reference longitude and does not wrap at the antimeridian: two active vehicles on
  the equator at longitudes 179.99 and -179.99 are \<open>6371 * pi / 9000\<close> km apart (about
  2.2 km), and a query around the first with radius 10 km returns nothing.
\<close>

theorem nearby_misses_vehicle_across_antimeridian:
  "getNearbyVehicles [(''a'', vehicleAt 0 (17999 / 100)), (''b'', vehicleAt 0 (- (17999 / 100)))]
       ''a'' 10 =
     Success \<lparr>nearbyList = [], nearbyCount = 0, nearbyRadius = 10\<rparr> \<and>
   status (vehicleAt 0 (- (17999 / 100))) = ''active'' \<and>
   withinRadius 0 (17999 / 100) 10 (vehicleAt 0 (- (17999 / 100)))"
  using antimeridian_distance_le
  by (simp add: getNearbyVehicles_def vehicleAt_def boxQuery_def js_div_def nearbyStep_def
      withinRadius_def antimeridian_distance)

section \<open>Properties: messages between vehicles\<close>

subsection \<open>The fan-out writes one copy per recipient\<close>

lemma length_queued: "length (foldl (queueCopy n msg) [] xs) = length xs"
  by (induction xs rule: rev_induct) (simp_all add: queueCopy_def Let_def)

lemma queued_copies:
  "foldl (queueCopy n msg) [] xs =
     map (\<lambda>k. (n + k, EmergencyMessage (msg\<lparr>emTargetVehicleId := Some (vehicleId (xs ! k)),
                                              emId := Some (n + k)\<rparr>)))
         [0 ..< length xs]"
proof (induction xs rule: rev_induct)
  case Nil
  then show ?case by simp
next
  case (snoc x xs)
  have "map (\<lambda>k. (n + k, EmergencyMessage
                 (msg\<lparr>emTargetVehicleId := Some (vehicleId ((xs @ [x]) ! k)),
                       emId := Some (n + k)\<rparr>))) [0 ..< length xs] =
        map (\<lambda>k. (n + k, EmergencyMessage
                 (msg\<lparr>emTargetVehicleId := Some (vehicleId (xs ! k)),
                       emId := Some (n + k)\<rparr>))) [0 ..< length xs]"
    by (rule map_cong) (simp_all add: nth_append)
  then show ?case
    using snoc.IH by (simp add: queueCopy_def Let_def length_queued)
qed

lemma getNearbyVehicles_count:
  "getNearbyVehicles vs vid R = Success nv \<Longrightarrow> nearbyCount nv = length (nearbyList nv)"
  by (auto simp: getNearbyVehicles_def Let_def split: option.splits result.splits)

text \<open>
  Without a location in the request the master is rejected: nothing is stored and the
  method returns the failure.
\<close>

lemma broadcast_without_location:
  "emLocation ed = None \<Longrightarrow>
   broadcastEmergencyMessage st sender ed now =
     (st, Failure ''Cannot use undefined as a Firestore value'')"
  by (simp add: broadcastEmergencyMessage_def addMessage_def)

text \<open>
  Claim C2: in a broadcast whose master write is accepted and in which the nearby-vehicle
  query at 50 km then succeeds and returns \<open>M\<close> vehicles, exactly \<open>M + 1\<close> documents are
  appended to \<^verbatim>\<open>v2v_messages\<close>: the master, which is the message built from the sender,
  the emergency data and the time, with no \<^verbatim>\<open>targetVehicleId\<close>; then one copy per returned
  vehicle, in order, each the master with that vehicle's \<^verbatim>\<open>vehicleId\<close> as
  \<^verbatim>\<open>targetVehicleId\<close> and its own fresh id as \<^verbatim>\<open>id\<close>. Nothing else in the store changes, and
  the returned \<^verbatim>\<open>broadcastCount\<close> is \<open>M\<close>.
\<close>

theorem broadcast_stores_master_and_one_copy_each:
  assumes "master = \<lparr>emSenderVehicleId = sender, emType = ''emergency'', emPriority = ''high'',
                     emData = ed, emTimestamp = now, emStatus = ''broadcast'',
                     emTargetVehicleId = None, emId = None\<rparr>"
    and "addMessage st (EmergencyMessage master) = Success (docRefId, st1)"
    and "getNearbyVehicles (vehicleDocs st1) sender 50 = Success nv"
  shows "\<exists>st'.
           broadcastEmergencyMessage st sender ed now =
             (st', Success \<lparr>messageId = docRefId, broadcastCount = length (nearbyList nv)\<rparr>) \<and>
           messageDocs st' =
             messageDocs st @ (docRefId, EmergencyMessage master) #
               map (\<lambda>k. (docRefId + 1 + k,
                          EmergencyMessage
                            (master\<lparr>emTargetVehicleId := Some (vehicleId (nearbyList nv ! k)),
                                    emId := Some (docRefId + 1 + k)\<rparr>)))
                   [0 ..< length (nearbyList nv)] \<and>
           length (messageDocs st') = length (messageDocs st) + (length (nearbyList nv) + 1) \<and>
           vehicleDocs st' = vehicleDocs st \<and>
           docRefId = nextId st"
proof -
  have cnt: "nearbyCount nv = length (nearbyList nv)"
    using assms(3) by (rule getNearbyVehicles_count)
  have st1: "docRefId = nextId st"
    "st1 = st\<lparr>messageDocs := messageDocs st @ [(nextId st, EmergencyMessage master)],
               nextId := Suc (nextId st)\<rparr>"
    using assms(2) by (auto simp: addMessage_def split: if_splits)
  show ?thesis
    using assms(2,3) cnt unfolding assms(1) [symmetric] st1
    by (simp add: broadcastEmergencyMessage_def assms(1) [symmetric] commitBatch_def
        queued_copies)
qed

theorem broadcast_stores_master_and_one_copy_each_witness:
  "\<exists>st'. broadcastEmergencyMessage
            \<lparr>vehicleDocs = [(''a'', vehicleAt 0 0), (''b'', vehicleAt 0 0)],
             messageDocs = [], nextId = 0\<rparr> ''a''
            \<lparr>emergencyType = ''fire'', emDescription = ''engine fire'', emSeverity = ''high'',
             emLocation = Some \<lparr>latitude = 0, longitude = 0\<rparr>,
             emSenderInfo = \<lparr>senderInfoVehicleId = ''a'', senderInfoUserId = ''u1''\<rparr>\<rparr> 7
          = (st', Success \<lparr>messageId = 0, broadcastCount = 1\<rparr>) \<and>
        messageDocs st' =
          [(0, EmergencyMessage
                 \<lparr>emSenderVehicleId = ''a'', emType = ''emergency'', emPriority = ''high'',
                  emData = \<lparr>emergencyType = ''fire'', emDescription = ''engine fire'',
                            emSeverity = ''high'',
                            emLocation = Some \<lparr>latitude = 0, longitude = 0\<rparr>,
                            emSenderInfo = \<lparr>senderInfoVehicleId = ''a'',
                                            senderInfoUserId = ''u1''\<rparr>\<rparr>,
                  emTimestamp = 7, emStatus = ''broadcast'', emTargetVehicleId = None,
                  emId = None\<rparr>),
           (1, EmergencyMessage
                 \<lparr>emSenderVehicleId = ''a'', emType = ''emergency'', emPriority = ''high'',
                  emData = \<lparr>emergencyType = ''fire'', emDescription = ''engine fire'',
                            emSeverity = ''high'',
                            emLocation = Some \<lparr>latitude = 0, longitude = 0\<rparr>,
                            emSenderInfo = \<lparr>senderInfoVehicleId = ''a'',
                                            senderInfoUserId = ''u1''\<rparr>\<rparr>,
                  emTimestamp = 7, emStatus = ''broadcast'', emTargetVehicleId = Some ''b'',
                  emId = Some 1\<rparr>)]"
proof -
  let ?st = "\<lparr>vehicleDocs = [(''a'', vehicleAt 0 0), (''b'', vehicleAt 0 0)],
             messageDocs = [], nextId = 0\<rparr>"
  let ?ed = "\<lparr>emergencyType = ''fire'', emDescription = ''engine fire'', emSeverity = ''high'',
             emLocation = Some \<lparr>latitude = 0, longitude = 0\<rparr>,
             emSenderInfo = \<lparr>senderInfoVehicleId = ''a'', senderInfoUserId = ''u1''\<rparr>\<rparr>"
  let ?master = "\<lparr>emSenderVehicleId = ''a'', emType = ''emergency'', emPriority = ''high'',
                     emData = ?ed, emTimestamp = 7, emStatus = ''broadcast'',
                     emTargetVehicleId = None, emId = None\<rparr>"
  let ?st1 = "?st\<lparr>messageDocs := [(0, EmergencyMessage ?master)], nextId := 1\<rparr>"
  have add: "addMessage ?st (EmergencyMessage ?master) = Success (0, ?st1)"
    by (simp add: addMessage_def)
  have nv: "getNearbyVehicles (vehicleDocs ?st1) ''a'' 50 =
      Success \<lparr>nearbyList = [nearbyEntry ''b'' (vehicleAt 0 0) 0], nearbyCount = 1,
              nearbyRadius = 50\<rparr>"
    by (simp add: getNearbyVehicles_def vehicleAt_def boxQuery_def js_div_def nearbyStep_def
        calculateDistance_same_point)
  from broadcast_stores_master_and_one_copy_each [OF refl add nv]
  obtain st' where
    "broadcastEmergencyMessage ?st ''a'' ?ed 7
       = (st', Success \<lparr>messageId = 0, broadcastCount = 1\<rparr>)"
    "messageDocs st' =
       [(0, EmergencyMessage ?master),
        (1, EmergencyMessage (?master\<lparr>emTargetVehicleId :=
                                         Some (vehicleId (nearbyEntry ''b'' (vehicleAt 0 0) 0)),
                                       emId := Some 1\<rparr>))]"
    by auto
  then show ?thesis
    by (intro exI [of _ st']) (simp add: nearbyEntry_def vehicleAt_def)
qed

section \<open>Properties: text messages with AI enhancement\<close>

subsection \<open>The fallback when enhancement fails\<close>

text \<open>
  Claim C7, as the code has it: the operation stores exactly one message. When
  \<open>enhanceV2VMessage\<close> fails, the stored text is the caller's original text and
  \<^verbatim>\<open>aiEnhanced\<close> is false; the enhanced text is stored, with \<^verbatim>\<open>aiEnhanced\<close> true, only
  when enhancement succeeds; \<^verbatim>\<open>originalMessage\<close> is the caller's text in both cases. The
  returned envelope is a success when the sender's vehicle document exists, and the
  failure of the rejected update otherwise.
\<close>

theorem ai_failure_falls_back_to_original_message:
  "\<exists>st' r m.
      processTextMessageWithAI st g sender target msg uid now = (st', r) \<and>
      messageDocs st' = messageDocs st @ [(nextId st, TextMessage m)] \<and>
      mdOriginalMessage (tmData m) = msg \<and>
      (case enhanceV2VMessage g msg of
         Failure e \<Rightarrow> mdMessage (tmData m) = msg \<and> \<not> mdAiEnhanced (tmData m)
       | Success a \<Rightarrow> mdMessage (tmData m) = enhancedMessage a \<and> mdAiEnhanced (tmData m)) \<and>
      (case map_of (vehicleDocs st) sender of
         Some v \<Rightarrow> r = Success \<lparr>sentMessageId = nextId st, sentData = m\<rparr>
       | None \<Rightarrow> r = Failure ''NOT_FOUND: No document to update'')"
  by (cases "enhanceV2VMessage g msg"; cases "map_of (vehicleDocs st) sender")
     (simp_all add: processTextMessageWithAI_def sendV2VTextMessage_def addMessage_def Let_def)

theorem ai_failure_falls_back_to_original_message_witness:
  "\<exists>st' m.
      processTextMessageWithAI
        \<lparr>vehicleDocs = [(''v1'', vehicleAt 0 0)], messageDocs = [], nextId = 0\<rparr>
        \<lparr>apiKey = None, generateContent = Failure ''unused'', extractJson = (\<lambda>t. None)\<rparr>
        ''v1'' ''v2'' ''help'' ''u1'' 0 = (st', Success \<lparr>sentMessageId = 0, sentData = m\<rparr>) \<and>
      messageDocs st' = [(0, TextMessage m)] \<and>
      mdMessage (tmData m) = ''help'' \<and> \<not> mdAiEnhanced (tmData m) \<and>
      mdOriginalMessage (tmData m) = ''help''"
  using ai_failure_falls_back_to_original_message
    [of "\<lparr>vehicleDocs = [(''v1'', vehicleAt 0 0)], messageDocs = [], nextId = 0\<rparr>"
        "\<lparr>apiKey = None, generateContent = Failure ''unused'', extractJson = (\<lambda>t. None)\<rparr>"
        "''v1''" "''v2''" "''help''" "''u1''" 0]
  by (auto simp: enhanceV2VMessage_def orElse_def)

text \<open>
  With no API key configured enhancement fails. When the sender's vehicle document does
  not exist, the original text is stored, and the operation reports a failure.
\<close>

theorem ai_failure_unknown_sender_counterexample:
  "enhanceV2VMessage \<lparr>apiKey = None, generateContent = Failure ''unused'',
                       extractJson = (\<lambda>t. None)\<rparr> ''help'' =
     Failure ''Gemini API key not configured'' \<and>
   processTextMessageWithAI \<lparr>vehicleDocs = [], messageDocs = [], nextId = 0\<rparr>
       \<lparr>apiKey = None, generateContent = Failure ''unused'', extractJson = (\<lambda>t. None)\<rparr>
       ''v1'' ''v2'' ''help'' ''u1'' 0 =
     (\<lparr>vehicleDocs = [],
       messageDocs = [(0, TextMessage \<lparr>tmSenderVehicleId = ''v1'',
          tmData = \<lparr>mdTargetVehicleId = ''v2'', mdMessage = ''help'', mdType = ''text'',
                    mdPriority = ''medium'', mdAiEnhanced = False, mdOriginalMessage = ''help'',
                    mdAiInsights = None,
                    mdSenderInfo = \<lparr>senderInfoVehicleId = ''v1'', senderInfoUserId = ''u1''\<rparr>\<rparr>,
          tmTimestamp = 0, tmStatus = ''sent''\<rparr>)],
       nextId = 1\<rparr>,
      Failure ''NOT_FOUND: No document to update'')"
  by (simp add: processTextMessageWithAI_def sendV2VTextMessage_def addMessage_def
      enhanceV2VMessage_def orElse_def Let_def)

section \<open>Properties: deleting a chat-history entry\<close>

text \<open>
  Claim C6: when the entry exists and its stored \<^verbatim>\<open>userId\<close> differs from the requester's
  \<^verbatim>\<open>uid\<close>, the answer is 403 with \<^verbatim>\<open>success: false\<close> and the authorization error, and the
  collection is unchanged; the entry is deleted, with a 200 answer, when the stored
  \<^verbatim>\<open>userId\<close> equals the \<^verbatim>\<open>uid\<close>; and the collection changes in no other case.
\<close>

theorem delete_history_only_by_owner:
  "(history entryId = Some doc \<and> chatUserId doc \<noteq> uid \<longrightarrow>
      deleteHistory history uid entryId =
        (history, \<lparr>statusCode = 403, success = False,
                   responseText = ''Unauthorized to delete this entry''\<rparr>)) \<and>
   (history entryId = Some doc \<and> chatUserId doc = uid \<longrightarrow>
      deleteHistory history uid entryId =
        (history(entryId := None),
         \<lparr>statusCode = 200, success = True,
          responseText = ''Chat history entry deleted successfully''\<rparr>)) \<and>
   (fst (deleteHistory history uid entryId) \<noteq> history \<longrightarrow>
      (\<exists>d. history entryId = Some d \<and> chatUserId d = uid))"
  by (auto simp: deleteHistory_def split: option.splits)

theorem delete_history_only_by_owner_witness:
  "deleteHistory
     [''c1'' \<mapsto> \<lparr>chatUserId = ''alice'', chatMessage = ''hi'', chatResponse = ''hello'',
                 chatTimestamp = 0\<rparr>] ''bob'' ''c1'' =
     ([''c1'' \<mapsto> \<lparr>chatUserId = ''alice'', chatMessage = ''hi'', chatResponse = ''hello'',
                  chatTimestamp = 0\<rparr>],
      \<lparr>statusCode = 403, success = False,
       responseText = ''Unauthorized to delete this entry''\<rparr>) \<and>
   deleteHistory
     [''c1'' \<mapsto> \<lparr>chatUserId = ''alice'', chatMessage = ''hi'', chatResponse = ''hello'',
                 chatTimestamp = 0\<rparr>] ''alice'' ''c1'' =
     (Map.empty,
      \<lparr>statusCode = 200, success = True,
       responseText = ''Chat history entry deleted successfully''\<rparr>)"
  using delete_history_only_by_owner
    [of "[''c1'' \<mapsto> \<lparr>chatUserId = ''alice'', chatMessage = ''hi'', chatResponse = ''hello'',
                 chatTimestamp = 0\<rparr>]" "''c1''"
        "\<lparr>chatUserId = ''alice'', chatMessage = ''hi'', chatResponse = ''hello'',
                 chatTimestamp = 0\<rparr>" "''bob''"]
    delete_history_only_by_owner
    [of "[''c1'' \<mapsto> \<lparr>chatUserId = ''alice'', chatMessage = ''hi'', chatResponse = ''hello'',
                 chatTimestamp = 0\<rparr>]" "''c1''"
        "\<lparr>chatUserId = ''alice'', chatMessage = ''hi'', chatResponse = ''hello'',
                 chatTimestamp = 0\<rparr>" "''alice''"]
  by simp

section \<open>Properties: severity of a weather observation\<close>

text \<open>
  Claim C5, as the code has it: the severity depends on the wind speed, the temperature
  and the first condition's two strings only, and an observation with wind speed 14 m/s is
  \<^verbatim>\<open>high\<close> unless one of the critical tests holds, in which case it is \<^verbatim>\<open>critical\<close>; such
  an observation always counts as severe weather.
\<close>

theorem weather_severity_of_wind_14:
  "(windSpeed w1 = windSpeed w2 \<and> temp w1 = temp w2 \<and> take 1 (weather w1) = take 1 (weather w2)
      \<longrightarrow> getWeatherSeverity w1 = getWeatherSeverity w2) \<and>
   (windSpeed w = Some 14 \<and> weather w = c # cs \<longrightarrow>
      getWeatherSeverity w =
        Success (if temp w > 45 \<or> temp w < - 30 \<or>
                    includes_str (toLowerCase (conditionMain c)) ''tornado'' \<or>
                    includes_str (toLowerCase (conditionMain c)) ''hurricane''
                 then ''critical'' else ''high'') \<and>
      isSevereWeather w = Success True)"
proof (intro conjI impI)
  assume "windSpeed w1 = windSpeed w2 \<and> temp w1 = temp w2 \<and> take 1 (weather w1) = take 1 (weather w2)"
  then show "getWeatherSeverity w1 = getWeatherSeverity w2"
    by (cases "weather w1"; cases "weather w2") (simp_all add: getWeatherSeverity_def)
next
  assume a: "windSpeed w = Some 14 \<and> weather w = c # cs"
  then show "getWeatherSeverity w =
        Success (if temp w > 45 \<or> temp w < - 30 \<or>
                    includes_str (toLowerCase (conditionMain c)) ''tornado'' \<or>
                    includes_str (toLowerCase (conditionMain c)) ''hurricane''
                 then ''critical'' else ''high'')"
    by (simp add: getWeatherSeverity_def Let_def)
  from a show "isSevereWeather w = Success True"
    by (simp add: isSevereWeather_def Let_def)
qed

theorem weather_severity_of_wind_14_witness:
  "getWeatherSeverity \<lparr>windSpeed = Some 14, temp = 20, humidity = 50,
       weather = [\<lparr>conditionMain = ''Clouds'', conditionDescription = ''broken clouds''\<rparr>],
       dt = 0\<rparr> = Success ''high''"
  using weather_severity_of_wind_14 [of
      "\<lparr>windSpeed = Some 14, temp = 20, humidity = 50,
       weather = [\<lparr>conditionMain = ''Clouds'', conditionDescription = ''broken clouds''\<rparr>],
       dt = 0\<rparr>"
      "\<lparr>windSpeed = Some 14, temp = 20, humidity = 50,
       weather = [\<lparr>conditionMain = ''Clouds'', conditionDescription = ''broken clouds''\<rparr>],
       dt = 0\<rparr>"
      "\<lparr>windSpeed = Some 14, temp = 20, humidity = 50,
       weather = [\<lparr>conditionMain = ''Clouds'', conditionDescription = ''broken clouds''\<rparr>],
       dt = 0\<rparr>" "\<lparr>conditionMain = ''Clouds'', conditionDescription = ''broken clouds''\<rparr>" "[]"]
  by (simp add: toLowerCase_def lowerChar_def)

text \<open>
  A wind speed of 14 m/s with a temperature of 46 degrees is \<^verbatim>\<open>critical\<close>, not \<^verbatim>\<open>high\<close>:
  the critical tests come first.
\<close>

theorem wind_14_in_extreme_heat_counterexample:
  "getWeatherSeverity \<lparr>windSpeed = Some 14, temp = 46, humidity = 10,
       weather = [\<lparr>conditionMain = ''Clear'', conditionDescription = ''clear sky''\<rparr>],
       dt = 0\<rparr> = Success ''critical''"
  by (simp add: getWeatherSeverity_def)

section \<open>Properties: geographic hotspots\<close>

subsection \<open>The grid counts the events of each cell\<close>

lemma map_fst_addToGrid:
  "map fst (addToGrid g c) =
     (if gridKey c \<in> set (map fst g) then map fst g else map fst g @ [gridKey c])"
proof -
  have "map fst (map (\<lambda>(k, cell). if k = key then (k, f cell) else (k, cell)) h) = map fst h"
    for key :: "int \<times> int" and f :: "grid_cell \<Rightarrow> grid_cell" and h :: grid
    by (induction h) auto
  then show ?thesis
    by (simp add: addToGrid_def Let_def map_of_eq_None_iff)
qed


lemma keys_gridOf: "set (map fst (gridOf cs)) = gridKey ` set cs"
  unfolding gridOf_def
  by (induction cs rule: rev_induct) (auto simp: map_fst_addToGrid)








section \<open>Properties: the trend of the daily totals\<close>

subsection \<open>Rounding to double precision\<close>

lemma toDouble_zero: "toDouble 0 = 0"
  by (simp add: toDouble_def)

lemma roundHalfEven_error: "\<bar>real_of_int (roundHalfEven y) - y\<bar> \<le> 1 / 2"
proof -
  have "real_of_int \<lfloor>y\<rfloor> \<le> y" "y < real_of_int \<lfloor>y\<rfloor> + 1" by linarith+
  then show ?thesis by (auto simp: roundHalfEven_def Let_def)
qed

lemma roundHalfEven_of_int: "roundHalfEven (real_of_int k) = k"
  by (simp add: roundHalfEven_def)

lemma toDouble_error: "\<bar>toDouble x - x\<bar> \<le> \<bar>x\<bar> / 2 ^ 53"
proof (cases "x = 0")
  case True
  then show ?thesis by (simp add: toDouble_def)
next
  case False
  define e where "e = \<lfloor>log 2 \<bar>x\<bar>\<rfloor>"
  define ulp where "ulp = 2 powr (real_of_int e - 52)"
  have ulp_pos: "ulp > 0" by (simp add: ulp_def)
  have td: "toDouble x = real_of_int (roundHalfEven (x / ulp)) * ulp"
    using False by (simp add: toDouble_def e_def ulp_def Let_def)
  have "toDouble x - x = (real_of_int (roundHalfEven (x / ulp)) - x / ulp) * ulp"
    using ulp_pos unfolding td by (simp add: field_simps)
  then have "\<bar>toDouble x - x\<bar> = \<bar>real_of_int (roundHalfEven (x / ulp)) - x / ulp\<bar> * ulp"
    using ulp_pos by (simp add: abs_mult)
  also have "\<dots> \<le> 1 / 2 * ulp"
    using roundHalfEven_error [of "x / ulp"] ulp_pos by (intro mult_right_mono) simp_all
  also have "ulp \<le> \<bar>x\<bar> / 2 ^ 52"
  proof -
    have "real_of_int e \<le> log 2 \<bar>x\<bar>" unfolding e_def by linarith
    then have "2 powr (real_of_int e - 52) \<le> 2 powr (log 2 \<bar>x\<bar> - 52)" by simp
    also have "\<dots> = \<bar>x\<bar> / 2 ^ 52"
      using False by (simp add: powr_diff)
    finally show ?thesis by (simp add: ulp_def)
  qed
  finally show ?thesis by simp
qed

lemma toDouble_eval:
  assumes "2 powr (real_of_int e) \<le> \<bar>x\<bar>" and "\<bar>x\<bar> < 2 powr (real_of_int e + 1)"
  shows "toDouble x =
     real_of_int (roundHalfEven (x / 2 powr (real_of_int e - 52))) * 2 powr (real_of_int e - 52)"
proof -
  have pos: "\<bar>x\<bar> > 0" using assms(1) by (smt (verit) powr_gt_zero)
  have "real_of_int e \<le> log 2 \<bar>x\<bar>"
    using assms(1) pos by (simp add: le_log_iff)
  moreover have "log 2 \<bar>x\<bar> < real_of_int e + 1"
    using assms(2) pos by (simp add: log_less_iff)
  ultimately have "\<lfloor>log 2 \<bar>x\<bar>\<rfloor> = e" by linarith
  then show ?thesis using pos by (simp add: toDouble_def Let_def)
qed

lemma toDouble_eval_up:
  assumes "2 ^ k \<le> \<bar>x\<bar>" and "\<bar>x\<bar> < 2 ^ (k + 1)" and "k \<le> 52"
  shows "toDouble x = real_of_int (roundHalfEven (x * 2 ^ (52 - k))) / 2 ^ (52 - k)"
proof -
  have p: "2 powr (real_of_int (int k) - 52) = 1 / 2 ^ (52 - k)"
  proof -
    have "real_of_int (int k) - 52 = - real (52 - k)" using assms(3) by simp
    then have "2 powr (real_of_int (int k) - 52) = inverse (2 powr real (52 - k))"
      by (simp only: powr_minus)
    also have "2 powr real (52 - k) = (2::real) ^ (52 - k)" by (rule powr_realpow) simp
    finally show ?thesis by (simp add: inverse_eq_divide)
  qed
  have "toDouble x =
     real_of_int (roundHalfEven (x / 2 powr (real_of_int (int k) - 52))) *
       2 powr (real_of_int (int k) - 52)"
    using assms(1,2) by (intro toDouble_eval) (simp_all add: powr_realpow powr_add)
  then show ?thesis unfolding p by simp
qed

lemma toDouble_eval_down:
  assumes "1 / 2 ^ k \<le> \<bar>x\<bar>" and "\<bar>x\<bar> < 2 / 2 ^ k"
  shows "toDouble x = real_of_int (roundHalfEven (x * 2 ^ (52 + k))) / 2 ^ (52 + k)"
proof -
  have p: "2 powr (real_of_int (- int k) - 52) = 1 / 2 ^ (52 + k)"
  proof -
    have "real_of_int (- int k) - 52 = - real (52 + k)" by simp
    then have "2 powr (real_of_int (- int k) - 52) = inverse (2 powr real (52 + k))"
      by (simp only: powr_minus)
    also have "2 powr real (52 + k) = (2::real) ^ (52 + k)" by (rule powr_realpow) simp
    finally show ?thesis by (simp add: inverse_eq_divide)
  qed
  have q: "2 powr (real_of_int (- int k)) = 1 / 2 ^ k"
  proof -
    have "real_of_int (- int k) = - real k" by simp
    then have "2 powr (real_of_int (- int k)) = inverse (2 powr real k)"
      by (simp only: powr_minus)
    also have "2 powr real k = (2::real) ^ k" by (rule powr_realpow) simp
    finally show ?thesis by (simp add: inverse_eq_divide)
  qed
  have q1: "2 powr (real_of_int (- int k) + 1) = 2 / 2 ^ k"
  proof -
    have "2 powr (real_of_int (- int k) + 1) = 2 powr (real_of_int (- int k)) * 2 powr 1"
      by (rule powr_add)
    then show ?thesis unfolding q by simp
  qed
  have "toDouble x =
     real_of_int (roundHalfEven (x / 2 powr (real_of_int (- int k) - 52))) *
       2 powr (real_of_int (- int k) - 52)"
    using assms unfolding q [symmetric] q1 [symmetric] by (intro toDouble_eval)
  then show ?thesis unfolding p by simp
qed

lemma toDouble_of_nat:
  assumes "n < 2 ^ 53"
  shows "toDouble (real n) = real n"
proof (cases "n = 0")
  case True
  then show ?thesis by (simp add: toDouble_def)
next
  case False
  define e where "e = \<lfloor>log 2 (real n)\<rfloor>"
  have n1: "1 \<le> real n" using False by simp
  have "0 \<le> log 2 (real n)" using n1 by simp
  then have e0: "0 \<le> e" by (simp add: e_def)
  have "real n < real (2 ^ 53)" using assms by (simp only: of_nat_less_iff)
  also have "real (2 ^ 53) = 2 powr 53" by simp
  finally have "log 2 (real n) < log 2 (2 powr 53)"
    using n1 by (subst log_less_cancel_iff) simp_all
  then have "log 2 (real n) < 53" by (simp only: log_powr_cancel)
  then have e52: "e \<le> 52" unfolding e_def by linarith
  define k where "k = nat (52 - e)"
  have ke: "real_of_int e - 52 = - real k" using e52 by (simp add: k_def)
  have "2 powr (real_of_int e - 52) = inverse (2 powr real k)"
    unfolding ke by (rule powr_minus)
  also have "2 powr real k = (2::real) ^ k" by (rule powr_realpow) simp
  finally have ulp: "2 powr (real_of_int e - 52) = 1 / 2 ^ k" by (simp add: inverse_eq_divide)
  have "real n / (1 / 2 ^ k) = real n * 2 ^ k" by simp
  also have "\<dots> = real_of_int (int (n * 2 ^ k))" by simp
  finally have r: "roundHalfEven (real n / (1 / 2 ^ k)) = int (n * 2 ^ k)"
    by (simp only: roundHalfEven_of_int)
  have "toDouble (real n) =
      real_of_int (roundHalfEven (real n / 2 powr (real_of_int e - 52))) *
        2 powr (real_of_int e - 52)"
    using False by (simp add: toDouble_def Let_def e_def)
  also have "\<dots> = real_of_int (int (n * 2 ^ k)) * (1 / 2 ^ k)"
    unfolding ulp r ..
  also have "\<dots> = real n" by simp
  finally show ?thesis .
qed

lemma toDouble_bounds_nonneg:
  assumes "0 \<le> x"
  shows "x * (1 - 1 / 10 ^ 15) \<le> toDouble x" and "toDouble x \<le> x * (1 + 1 / 10 ^ 15)"
proof -
  have "\<bar>x\<bar> / 2 ^ 53 \<le> \<bar>x\<bar> / 10 ^ 15"
    by (intro divide_left_mono) simp_all
  then have "\<bar>toDouble x - x\<bar> \<le> x / 10 ^ 15"
    using toDouble_error [of x] assms by simp
  then have "toDouble x - x \<le> x / 10 ^ 15" and "x - toDouble x \<le> x / 10 ^ 15"
    by linarith+
  then show "x * (1 - 1 / 10 ^ 15) \<le> toDouble x" and "toDouble x \<le> x * (1 + 1 / 10 ^ 15)"
    by (simp_all add: algebra_simps)
qed

lemma toDouble_bounds_nonpos:
  assumes "x \<le> 0"
  shows "x * (1 + 1 / 10 ^ 15) \<le> toDouble x" and "toDouble x \<le> x * (1 - 1 / 10 ^ 15)"
proof -
  have "\<bar>x\<bar> / 2 ^ 53 \<le> \<bar>x\<bar> / 10 ^ 15"
    by (intro divide_left_mono) simp_all
  then have "\<bar>toDouble x - x\<bar> \<le> - x / 10 ^ 15"
    using toDouble_error [of x] assms by simp
  then have "toDouble x - x \<le> - x / 10 ^ 15" and "x - toDouble x \<le> - x / 10 ^ 15"
    by linarith+
  then show "x * (1 + 1 / 10 ^ 15) \<le> toDouble x" and "toDouble x \<le> x * (1 - 1 / 10 ^ 15)"
    by (simp_all add: algebra_simps)
qed

lemma toDouble_nonneg: "0 \<le> x \<Longrightarrow> 0 \<le> toDouble x"
  using toDouble_bounds_nonneg(1) [of x] by (simp add: algebra_simps)

lemma toDouble_nonpos: "x \<le> 0 \<Longrightarrow> toDouble x \<le> 0"
  using toDouble_bounds_nonpos(2) [of x] by (simp add: algebra_simps)

lemma toDouble_pos: "0 < x \<Longrightarrow> 0 < toDouble x"
proof -
  assume x: "0 < x"
  then have "0 < x * (1 - 1 / 10 ^ 15)" by simp
  then show ?thesis using toDouble_bounds_nonneg(1) [of x] x by linarith
qed

lemma inRange_between: "1 / 2 ^ 110 \<le> \<bar>x\<bar> \<Longrightarrow> \<bar>x\<bar> \<le> 2 ^ 70 \<Longrightarrow> inRange x"
proof -
  assume lo: "1 / 2 ^ 110 \<le> \<bar>x\<bar>" and hi: "\<bar>x\<bar> \<le> 2 ^ 70"
  have "(1 :: real) / 2 ^ 1022 \<le> 1 / 2 ^ 110"
    by (intro divide_left_mono power_increasing) simp_all
  moreover have "(2 :: real) ^ 70 \<le> 2 ^ 1023" by (intro power_increasing) simp_all
  ultimately show ?thesis using lo hi unfolding inRange_def by linarith
qed

lemma toDouble_abs_bounds:
  "\<bar>x\<bar> * (1 - 1 / 2 ^ 53) \<le> \<bar>toDouble x\<bar>" "\<bar>toDouble x\<bar> \<le> \<bar>x\<bar> * (1 + 1 / 2 ^ 53)"
proof -
  have "\<bar>\<bar>toDouble x\<bar> - \<bar>x\<bar>\<bar> \<le> \<bar>toDouble x - x\<bar>" by (rule abs_triangle_ineq3)
  then have "\<bar>toDouble x\<bar> - \<bar>x\<bar> \<le> \<bar>x\<bar> / 2 ^ 53" and "\<bar>x\<bar> - \<bar>toDouble x\<bar> \<le> \<bar>x\<bar> / 2 ^ 53"
    using toDouble_error [of x] by linarith+
  then show "\<bar>x\<bar> * (1 - 1 / 2 ^ 53) \<le> \<bar>toDouble x\<bar>" "\<bar>toDouble x\<bar> \<le> \<bar>x\<bar> * (1 + 1 / 2 ^ 53)"
    by (simp_all add: algebra_simps)
qed

lemma toDouble_grid:
  assumes "1 \<le> \<bar>x\<bar>"
  shows "\<exists>k :: int. toDouble x = real_of_int k / 2 ^ 52"
proof -
  define e where "e = \<lfloor>log 2 \<bar>x\<bar>\<rfloor>"
  have "0 \<le> log 2 \<bar>x\<bar>" using assms by simp
  then have e0: "0 \<le> e" by (simp add: e_def)
  have x0: "x \<noteq> 0" using assms by auto
  have "2 powr (real_of_int e - 52) = 2 powr (real_of_int e) / 2 powr 52"
    by (rule powr_diff)
  also have "2 powr (real_of_int e) = 2 powr (real (nat e))" using e0 by simp
  also have "\<dots> = 2 ^ nat e" by (rule powr_realpow) simp
  also have "(2 :: real) powr 52 = 2 ^ 52" using powr_realpow [of 2 52] by simp
  finally have ulp: "2 powr (real_of_int e - 52) = 2 ^ nat e / 2 ^ 52" .
  have "toDouble x =
      real_of_int (roundHalfEven (x / 2 powr (real_of_int e - 52))) * 2 powr (real_of_int e - 52)"
    using x0 by (simp add: toDouble_def Let_def e_def)
  also have "\<dots> = real_of_int (roundHalfEven (x / 2 powr (real_of_int e - 52)) * 2 ^ nat e) / 2 ^ 52"
    unfolding ulp by simp
  finally show ?thesis by blast
qed


subsection \<open>The computed change against the exact ratio of the means\<close>

text \<open>
  Each of the five roundings moves a value by at most one part in \<open>2\<^sup>5\<^sup>3\<close>, so a ratio of the
  exact means that is off \<open>1.1\<close> or \<open>0.9\<close> by \<open>10\<^sup>-\<^sup>1\<^sup>4\<close> leaves the computed change on the same
  side of the threshold.
\<close>

lemma computedChange_nonneg:
  assumes "0 < a1" and "a1 \<le> a2"
  shows "0 \<le> computedChange a1 a2"
proof -
  have "0 \<le> toDouble (a2 - a1)" using assms by (simp add: toDouble_nonneg)
  then have "0 \<le> toDouble (a2 - a1) / a1" using assms(1) by simp
  then have "0 \<le> toDouble (toDouble (a2 - a1) / a1) * 100" by (simp add: toDouble_nonneg)
  then show ?thesis unfolding computedChange_def by (rule toDouble_nonneg)
qed

lemma computedChange_nonpos:
  assumes "0 < a1" and "a2 \<le> a1"
  shows "computedChange a1 a2 \<le> 0"
proof -
  have "toDouble (a2 - a1) \<le> 0" using assms by (simp add: toDouble_nonpos)
  then have "toDouble (a2 - a1) / a1 \<le> 0" using assms(1) by (simp add: divide_le_0_iff)
  then have "toDouble (toDouble (a2 - a1) / a1) * 100 \<le> 0"
    using toDouble_nonpos [of "toDouble (a2 - a1) / a1"] by simp
  then show ?thesis unfolding computedChange_def by (rule toDouble_nonpos)
qed

lemma change_above:
  assumes "0 < m1" and "(1 + (10 + 1 / 10 ^ 12) / 100) * m1 \<le> m2"
  shows "10 < computedChange (toDouble m1) (toDouble m2)"
proof -
  define a1 where "a1 = toDouble m1"
  define a2 where "a2 = toDouble m2"
  define x where "x = a2 - a1"
  define d where "d = toDouble x"
  define y where "y = d / a1"
  define q where "q = toDouble y"
  define z where "z = q * 100"
  have m2: "0 \<le> m2" using assms by simp
  have a1: "m1 * (1 - 1 / 10 ^ 15) \<le> a1" "a1 \<le> m1 * (1 + 1 / 10 ^ 15)"
    unfolding a1_def using toDouble_bounds_nonneg [of m1] assms(1) by simp_all
  have a1_pos: "0 < a1" using a1(1) assms(1) by (simp add: algebra_simps) 
  have a2: "m2 * (1 - 1 / 10 ^ 15) \<le> a2"
    unfolding a2_def using toDouble_bounds_nonneg [of m2] m2 by simp
  have x: "m1 * (1 / 10 + 7 / 10 ^ 15) \<le> x"
    unfolding x_def using a1(2) a2 assms by (simp add: algebra_simps)
  have "0 \<le> m1 * (1 / 10 + 7 / 10 ^ 15)" using assms(1) by simp
  then have x0: "0 \<le> x" using x by linarith
  have d: "m1 * (1 / 10 + 6 / 10 ^ 15) \<le> d"
    unfolding d_def using toDouble_bounds_nonneg(1) [OF x0] x assms(1)
    by (simp add: algebra_simps)
  have "(1 / 10 + 5 / 10 ^ 15) * a1 \<le> d"
    using d a1(2) assms(1) by (simp add: algebra_simps)
  then have y: "1 / 10 + 5 / 10 ^ 15 \<le> y"
    unfolding y_def using a1_pos by (simp add: pos_le_divide_eq)
  then have y0: "0 \<le> y" by simp
  have q: "1 / 10 + 4 / 10 ^ 15 \<le> q"
    unfolding q_def using toDouble_bounds_nonneg(1) [OF y0] y by (simp add: algebra_simps)
  then have z: "10 + 4 / 10 ^ 13 \<le> z" unfolding z_def by simp
  then have z0: "0 \<le> z" by simp
  have "10 < toDouble z"
    using toDouble_bounds_nonneg(1) [OF z0] z by (simp add: algebra_simps)
  then show ?thesis
    by (simp add: computedChange_def a1_def a2_def x_def d_def y_def q_def z_def)
qed

lemma change_at_most:
  assumes "0 < m1" and "0 \<le> m2" and "m2 \<le> (1 + (10 - 1 / 10 ^ 12) / 100) * m1"
  shows "computedChange (toDouble m1) (toDouble m2) \<le> 10"
proof -
  define a1 where "a1 = toDouble m1"
  define a2 where "a2 = toDouble m2"
  define x where "x = a2 - a1"
  define d where "d = toDouble x"
  define y where "y = d / a1"
  define q where "q = toDouble y"
  define z where "z = q * 100"
  have a1: "m1 * (1 - 1 / 10 ^ 15) \<le> a1" "a1 \<le> m1 * (1 + 1 / 10 ^ 15)"
    unfolding a1_def using toDouble_bounds_nonneg [of m1] assms(1) by simp_all
  have a1_pos: "0 < a1" using a1(1) assms(1) by (simp add: algebra_simps)
  show ?thesis
  proof (cases "0 \<le> x")
    case False
    then have "a2 \<le> a1" by (simp add: x_def)
    then have "computedChange a1 a2 \<le> 0" using a1_pos by (rule computedChange_nonpos [rotated])
    then show ?thesis by (simp add: a1_def a2_def)
  next
    case x0: True
    have a2: "a2 \<le> m2 * (1 + 1 / 10 ^ 15)"
      unfolding a2_def using toDouble_bounds_nonneg [of m2] assms(2) by simp
    have x: "x \<le> m1 * (1 / 10 - 7 / 10 ^ 15)"
      unfolding x_def using a1(1) a2 assms by (simp add: algebra_simps)
    have d0: "0 \<le> d" unfolding d_def using x0 by (rule toDouble_nonneg)
    have d: "d \<le> m1 * (1 / 10 - 6 / 10 ^ 15)"
      unfolding d_def using toDouble_bounds_nonneg(2) [OF x0] x assms(1)
      by (simp add: algebra_simps)
    have "d \<le> (1 / 10 - 5 / 10 ^ 15) * a1"
      using d a1(1) assms(1) by (simp add: algebra_simps)
    then have y: "y \<le> 1 / 10 - 5 / 10 ^ 15"
      unfolding y_def using a1_pos by (simp add: pos_divide_le_eq)
    have y0: "0 \<le> y" unfolding y_def using d0 a1_pos by simp
    have q0: "0 \<le> q" unfolding q_def using y0 by (rule toDouble_nonneg)
    have q: "q \<le> 1 / 10 - 4 / 10 ^ 15"
      unfolding q_def using toDouble_bounds_nonneg(2) [OF y0] y by (simp add: algebra_simps)
    then have z: "z \<le> 10 - 4 / 10 ^ 13" unfolding z_def by simp
    have z0: "0 \<le> z" unfolding z_def using q0 by simp
    have "toDouble z \<le> 10"
      using toDouble_bounds_nonneg(2) [OF z0] z by (simp add: algebra_simps)
    then show ?thesis
      by (simp add: computedChange_def a1_def a2_def x_def d_def y_def q_def z_def)
  qed
qed

lemma change_below:
  assumes "0 < m1" and "0 \<le> m2" and "m2 \<le> (1 - (10 + 1 / 10 ^ 12) / 100) * m1"
  shows "computedChange (toDouble m1) (toDouble m2) < - 10"
proof -
  define a1 where "a1 = toDouble m1"
  define a2 where "a2 = toDouble m2"
  define x where "x = a2 - a1"
  define d where "d = toDouble x"
  define y where "y = d / a1"
  define q where "q = toDouble y"
  define z where "z = q * 100"
  have a1: "m1 * (1 - 1 / 10 ^ 15) \<le> a1" "a1 \<le> m1 * (1 + 1 / 10 ^ 15)"
    unfolding a1_def using toDouble_bounds_nonneg [of m1] assms(1) by simp_all
  have a1_pos: "0 < a1" using a1(1) assms(1) by (simp add: algebra_simps)
  have a2: "a2 \<le> m2 * (1 + 1 / 10 ^ 15)"
    unfolding a2_def using toDouble_bounds_nonneg [of m2] assms(2) by simp
  have x: "x \<le> - (m1 * (1 / 10 + 7 / 10 ^ 15))"
    unfolding x_def using a1(1) a2 assms by (simp add: algebra_simps)
  have "0 \<le> m1 * (1 / 10 + 7 / 10 ^ 15)" using assms(1) by simp
  then have x0: "x \<le> 0" using x by linarith
  have d: "d \<le> - (m1 * (1 / 10 + 6 / 10 ^ 15))"
    unfolding d_def using toDouble_bounds_nonpos(2) [OF x0] x assms(1)
    by (simp add: algebra_simps)
  have "d \<le> - (1 / 10 + 5 / 10 ^ 15) * a1"
    using d a1(2) assms(1) by (simp add: algebra_simps)
  then have y: "y \<le> - (1 / 10 + 5 / 10 ^ 15)"
    unfolding y_def using a1_pos by (simp add: pos_divide_le_eq)
  then have y0: "y \<le> 0" by simp
  have q: "q \<le> - (1 / 10 + 4 / 10 ^ 15)"
    unfolding q_def using toDouble_bounds_nonpos(2) [OF y0] y by (simp add: algebra_simps)
  then have z: "z \<le> - (10 + 4 / 10 ^ 13)" unfolding z_def by simp
  then have z0: "z \<le> 0" by simp
  have "toDouble z < - 10"
    using toDouble_bounds_nonpos(2) [OF z0] z by (simp add: algebra_simps)
  then show ?thesis
    by (simp add: computedChange_def a1_def a2_def x_def d_def y_def q_def z_def)
qed

lemma change_at_least:
  assumes "0 < m1" and "(1 - (10 - 1 / 10 ^ 12) / 100) * m1 \<le> m2"
  shows "- 10 \<le> computedChange (toDouble m1) (toDouble m2)"
proof -
  define a1 where "a1 = toDouble m1"
  define a2 where "a2 = toDouble m2"
  define x where "x = a2 - a1"
  define d where "d = toDouble x"
  define y where "y = d / a1"
  define q where "q = toDouble y"
  define z where "z = q * 100"
  have "0 \<le> (1 - (10 - 1 / 10 ^ 12) / 100) * m1" using assms(1) by simp
  then have m2: "0 \<le> m2" using assms(2) by linarith
  have a1: "m1 * (1 - 1 / 10 ^ 15) \<le> a1" "a1 \<le> m1 * (1 + 1 / 10 ^ 15)"
    unfolding a1_def using toDouble_bounds_nonneg [of m1] assms(1) by simp_all
  have a1_pos: "0 < a1" using a1(1) assms(1) by (simp add: algebra_simps)
  show ?thesis
  proof (cases "x \<le> 0")
    case False
    then have "a1 \<le> a2" by (simp add: x_def)
    then have "0 \<le> computedChange a1 a2" using a1_pos by (rule computedChange_nonneg [rotated])
    then show ?thesis by (simp add: a1_def a2_def)
  next
    case x0: True
    have a2: "m2 * (1 - 1 / 10 ^ 15) \<le> a2"
      unfolding a2_def using toDouble_bounds_nonneg [of m2] m2 by simp
    have x: "- (m1 * (1 / 10 - 7 / 10 ^ 15)) \<le> x"
      unfolding x_def using a1(2) a2 assms by (simp add: algebra_simps)
    have d0: "d \<le> 0" unfolding d_def using x0 by (rule toDouble_nonpos)
    have d: "- (m1 * (1 / 10 - 6 / 10 ^ 15)) \<le> d"
      unfolding d_def using toDouble_bounds_nonpos(1) [OF x0] x assms(1)
      by (simp add: algebra_simps)
    have "- (1 / 10 - 5 / 10 ^ 15) * a1 \<le> d"
      using d a1(1) assms(1) by (simp add: algebra_simps)
    then have y: "- (1 / 10 - 5 / 10 ^ 15) \<le> y"
      unfolding y_def using a1_pos by (simp add: pos_le_divide_eq)
    have y0: "y \<le> 0" unfolding y_def using d0 a1_pos by (simp add: divide_le_0_iff)
    have q0: "q \<le> 0" unfolding q_def using y0 by (rule toDouble_nonpos)
    have q: "- (1 / 10 - 4 / 10 ^ 15) \<le> q"
      unfolding q_def using toDouble_bounds_nonpos(1) [OF y0] y by (simp add: algebra_simps)
    then have z: "- (10 - 4 / 10 ^ 13) \<le> z" unfolding z_def by simp
    have z0: "z \<le> 0" unfolding z_def using q0 by simp
    have "- 10 \<le> toDouble z"
      using toDouble_bounds_nonpos(1) [OF z0] z by (simp add: algebra_simps)
    then show ?thesis
      by (simp add: computedChange_def a1_def a2_def x_def d_def y_def q_def z_def)
  qed
qed

subsection \<open>The daily totals are counts, and their sums are exact\<close>

lemma foldl_dblAdd_exact:
  "a + sum_list ns < 2 ^ 53 \<Longrightarrow> foldl dblAdd (real a) (map real ns) = real (a + sum_list ns)"
proof (induction ns arbitrary: a)
  case Nil
  then show ?case by simp
next
  case (Cons n ns)
  have "a + n < 2 ^ 53" using Cons.prems by simp
  then have "dblAdd (real a) (real n) = real (a + n)"
    using toDouble_of_nat [of "a + n"] by (simp add: dblAdd_def)
  moreover have "(a + n) + sum_list ns < 2 ^ 53" using Cons.prems by simp
  ultimately show ?case using Cons.IH [of "a + n"] by (simp add: add.assoc)
qed

lemma foldl_dblAdd_sum:
  assumes "sum_list ns < 2 ^ 53"
  shows "foldl dblAdd 0 (map real ns) = real (sum_list ns)"
  using foldl_dblAdd_exact [of 0 ns] assms by simp

lemma sum_list_map_real: "sum_list (map real ns) = real (sum_list ns)"
  by (induction ns) simp_all

lemma sum_list_take_le: "sum_list (take h ns) \<le> sum_list (ns :: nat list)"
proof -
  have "sum_list ns = sum_list (take h ns) + sum_list (drop h ns)"
    by (metis append_take_drop_id sum_list_append)
  then show ?thesis by simp
qed

lemma sum_list_drop_le: "sum_list (drop h ns) \<le> sum_list (ns :: nat list)"
proof -
  have "sum_list ns = sum_list (take h ns) + sum_list (drop h ns)"
    by (metis append_take_drop_id sum_list_append)
  then show ?thesis by simp
qed

lemma sum_list_ge_length:
  "\<forall>n \<in> set ns. 1 \<le> n \<Longrightarrow> length ns \<le> sum_list (ns :: nat list)"
  by (induction ns) auto

lemma map_fst_bump:
  "map fst (map (\<lambda>(k, total :: nat). if k = date then (k, total + 1) else (k, total)) xs) = map fst xs"
  by (induction xs) auto

lemma sum_bump_absent:
  "date \<notin> fst ` set xs \<Longrightarrow>
   sum_list (map snd (map (\<lambda>(k, total :: nat). if k = date then (k, total + 1) else (k, total)) xs))
     = sum_list (map snd xs)"
  by (induction xs) auto

lemma sum_bump_present:
  "distinct (map fst xs) \<Longrightarrow> date \<in> fst ` set xs \<Longrightarrow>
   sum_list (map snd (map (\<lambda>(k, total :: nat). if k = date then (k, total + 1) else (k, total)) xs))
     = sum_list (map snd xs) + 1"
proof (induction xs)
  case Nil
  then show ?case by simp
next
  case (Cons x xs)
  obtain k total where x: "x = (k, total)" by (cases x)
  show ?case
  proof (cases "k = date")
    case True
    then have "date \<notin> fst ` set xs" using Cons.prems(1) x by auto
    then show ?thesis using True x sum_bump_absent [of date xs] by simp
  next
    case False
    then have "date \<in> fst ` set xs" using Cons.prems(2) x by auto
    moreover have "distinct (map fst xs)" using Cons.prems(1) by simp
    ultimately show ?thesis using Cons.IH False x by simp
  qed
qed

lemma countDay_invariant:
  assumes "distinct (map fst dailyData)"
  shows "distinct (map fst (countDay dailyData t))"
    and "sum_list (map snd (countDay dailyData t)) = sum_list (map snd dailyData) + 1"
proof -
  have "map fst (countDay dailyData t) =
          map fst (if map_of dailyData (dayOf t) = None then dailyData @ [(dayOf t, 0)]
                   else dailyData)"
    unfolding countDay_def Let_def by (rule map_fst_bump)
  then show "distinct (map fst (countDay dailyData t))"
    using assms by (auto simp: map_of_eq_None_iff)
  show "sum_list (map snd (countDay dailyData t)) = sum_list (map snd dailyData) + 1"
  proof (cases "map_of dailyData (dayOf t) = None")
    case True
    then have "dayOf t \<notin> fst ` set dailyData" by (simp add: map_of_eq_None_iff)
    then have d: "distinct (map fst (dailyData @ [(dayOf t, 0)]))" using assms by auto
    have "dayOf t \<in> fst ` set (dailyData @ [(dayOf t, 0)])" by simp
    from sum_bump_present [OF d this] True show ?thesis
      by (simp add: countDay_def Let_def)
  next
    case False
    then have "dayOf t \<in> fst ` set dailyData" by (simp add: map_of_eq_None_iff)
    from sum_bump_present [OF assms this] False show ?thesis
      by (simp add: countDay_def Let_def)
  qed
qed

lemma dailyData_invariant:
  "distinct (map fst (foldl countDay [] stamps)) \<and>
   sum_list (map snd (foldl countDay [] stamps)) = length stamps"
proof (induction stamps rule: rev_induct)
  case Nil
  then show ?case by simp
next
  case (snoc t stamps)
  then show ?case using countDay_invariant [of "foldl countDay [] stamps" t] by simp
qed

lemma countDay_positive:
  "\<forall>kv \<in> set dailyData. snd kv \<ge> 1 \<Longrightarrow> \<forall>kv \<in> set (countDay dailyData t). snd kv \<ge> 1"
  by (auto simp: countDay_def Let_def split: if_splits)

lemma dailyData_positive: "\<forall>kv \<in> set (foldl countDay [] stamps). snd kv \<ge> 1"
proof (induction stamps rule: rev_induct)
  case Nil
  then show ?case by simp
next
  case (snoc t stamps)
  then show ?case using countDay_positive [OF snoc.IH, of t] by simp
qed

lemma dailyTotals_counts:
  "dailyTotals stamps = map real (map snd (foldl countDay [] stamps))"
  by (simp add: dailyTotals_def case_prod_unfold)

subsection \<open>The arithmetic stays within the range of the model\<close>

text \<open>
  On the daily totals of fewer than \<open>2\<^sup>5\<^sup>3\<close> records, every exact result that
  \<open>calculateTrend\<close> rounds (each partial sum, the two quotients by the lengths, the
  difference, the quotient by \<^verbatim>\<open>firstAvg\<close> and the product with \<open>100\<close>) is zero or a number
  that binary64 rounds as \<open>toDouble\<close> does, and \<^verbatim>\<open>firstAvg\<close> is not zero.
\<close>

lemma trend_arithmetic_in_range:
  assumes "length stamps < 2 ^ 53" and "values = dailyTotals stamps" and "2 \<le> length values"
    and "firstHalf = take (length values div 2) values"
    and "secondHalf = drop (length values div 2) values"
    and "firstAvg = toDouble (foldl dblAdd 0 firstHalf / real (length firstHalf))"
    and "secondAvg = toDouble (foldl dblAdd 0 secondHalf / real (length secondHalf))"
  shows "\<forall>k < length firstHalf. inRange (foldl dblAdd 0 (take k firstHalf) + firstHalf ! k)"
    and "\<forall>k < length secondHalf. inRange (foldl dblAdd 0 (take k secondHalf) + secondHalf ! k)"
    and "inRange (foldl dblAdd 0 firstHalf / real (length firstHalf))"
    and "inRange (foldl dblAdd 0 secondHalf / real (length secondHalf))"
    and "inRange (secondAvg - firstAvg)"
    and "firstAvg \<noteq> 0"
    and "inRange (dblSub secondAvg firstAvg / firstAvg)"
    and "inRange (toDouble (dblSub secondAvg firstAvg / firstAvg) * 100)"
proof -
  define ns where "ns = map snd (foldl countDay [] stamps)"
  define h where "h = length ns div 2"
  have vs: "values = map real ns" by (simp add: assms(2) dailyTotals_counts ns_def)
  have pos: "\<forall>n \<in> set ns. 1 \<le> n" using dailyData_positive [of stamps] by (simp add: ns_def)
  have "sum_list ns = length stamps" using dailyData_invariant [of stamps] by (simp add: ns_def)
  then have sm: "sum_list ns < 2 ^ 53" using assms(1) by simp
  have len: "2 \<le> length ns" using assms(3) by (simp add: vs)
  have h: "1 \<le> h" "h \<le> length ns" "1 \<le> length ns - h" using len by (simp_all add: h_def)
  have fh: "firstHalf = map real (take h ns)" by (simp add: assms(4) vs take_map h_def)
  have sh: "secondHalf = map real (drop h ns)" by (simp add: assms(5) vs drop_map h_def)
  have part: "\<forall>k < length ms. inRange (foldl dblAdd 0 (take k (map real ms)) + map real ms ! k)"
    if "sum_list ms < 2 ^ 53" for ms :: "nat list"
  proof (intro allI impI)
    fix k assume k: "k < length ms"
    have le: "sum_list (take (Suc k) ms) \<le> sum_list ms" by (rule sum_list_take_le)
    have eq: "sum_list (take (Suc k) ms) = sum_list (take k ms) + ms ! k"
      using k by (simp add: take_Suc_conv_app_nth)
    have "sum_list (take k ms) < 2 ^ 53" using le eq that by simp
    then have "foldl dblAdd 0 (take k (map real ms)) = real (sum_list (take k ms))"
      by (simp add: take_map foldl_dblAdd_sum)
    then have e: "foldl dblAdd 0 (take k (map real ms)) + map real ms ! k =
               real (sum_list (take (Suc k) ms))"
      using k eq by simp
    have "sum_list (take (Suc k) ms) \<le> 2 ^ 53" using le that by simp
    then have "real (sum_list (take (Suc k) ms)) \<le> real (2 ^ 53)" by (rule of_nat_mono)
    then have up: "real (sum_list (take (Suc k) ms)) \<le> 2 ^ 70" by simp
    show "inRange (foldl dblAdd 0 (take k (map real ms)) + map real ms ! k)"
    proof (cases "sum_list (take (Suc k) ms) = 0")
      case True
      then show ?thesis unfolding e by (simp add: inRange_def)
    next
      case False
      then have "1 \<le> sum_list (take (Suc k) ms)" by linarith
      then have "real 1 \<le> real (sum_list (take (Suc k) ms))" by (rule of_nat_mono)
      then have "1 \<le> real (sum_list (take (Suc k) ms))" by (simp only: of_nat_1)
      moreover have "(1 :: real) / 2 ^ 110 \<le> 1" by simp
      ultimately have "1 / 2 ^ 110 \<le> \<bar>real (sum_list (take (Suc k) ms))\<bar>" by linarith
      then show ?thesis unfolding e using up by (intro inRange_between) simp_all
    qed
  qed
  have s1: "sum_list (take h ns) < 2 ^ 53" using sum_list_take_le [of h ns] sm by simp
  have s2: "sum_list (drop h ns) < 2 ^ 53" using sum_list_drop_le [of h ns] sm by simp
  show "\<forall>k < length firstHalf. inRange (foldl dblAdd 0 (take k firstHalf) + firstHalf ! k)"
    unfolding fh using part [OF s1] by simp
  show "\<forall>k < length secondHalf. inRange (foldl dblAdd 0 (take k secondHalf) + secondHalf ! k)"
    unfolding sh using part [OF s2] by simp
  define m1 where "m1 = real (sum_list (take h ns)) / real h"
  define m2 where "m2 = real (sum_list (drop h ns)) / real (length ns - h)"
  have q1: "foldl dblAdd 0 firstHalf / real (length firstHalf) = m1"
    unfolding fh using h by (simp add: foldl_dblAdd_sum [OF s1] m1_def)
  have q2: "foldl dblAdd 0 secondHalf / real (length secondHalf) = m2"
    unfolding sh using h by (simp add: foldl_dblAdd_sum [OF s2] m2_def)
  have "\<forall>n \<in> set (take h ns). 1 \<le> n" using pos by (auto dest: in_set_takeD)
  then have "length (take h ns) \<le> sum_list (take h ns)" by (rule sum_list_ge_length)
  then have c1: "h \<le> sum_list (take h ns)" using h by simp
  have "\<forall>n \<in> set (drop h ns). 1 \<le> n" using pos by (auto dest: in_set_dropD)
  then have "length (drop h ns) \<le> sum_list (drop h ns)" by (rule sum_list_ge_length)
  then have c2: "length ns - h \<le> sum_list (drop h ns)" by simp
  have m1: "1 \<le> m1" "m1 \<le> 2 ^ 53"
  proof -
    have "real h \<le> real (sum_list (take h ns))" using c1 by (rule of_nat_mono)
    then show "1 \<le> m1" unfolding m1_def using h by (simp add: pos_le_divide_eq)
    have "sum_list (take h ns) \<le> 2 ^ 53" using s1 by simp
    then have "real (sum_list (take h ns)) \<le> real (2 ^ 53)" by (rule of_nat_mono)
    moreover have "real (2 ^ 53) \<le> 2 ^ 53 * real h" using h by simp
    ultimately show "m1 \<le> 2 ^ 53" unfolding m1_def using h by (simp add: pos_divide_le_eq)
  qed
  have m2: "1 \<le> m2" "m2 \<le> 2 ^ 53"
  proof -
    have "real (length ns - h) \<le> real (sum_list (drop h ns))" using c2 by (rule of_nat_mono)
    then show "1 \<le> m2" unfolding m2_def using h by (simp add: pos_le_divide_eq)
    have "sum_list (drop h ns) \<le> 2 ^ 53" using s2 by simp
    then have "real (sum_list (drop h ns)) \<le> real (2 ^ 53)" by (rule of_nat_mono)
    moreover have "real (2 ^ 53) \<le> 2 ^ 53 * real (length ns - h)" using h by simp
    ultimately show "m2 \<le> 2 ^ 53" unfolding m2_def using h by (simp add: pos_divide_le_eq)
  qed
  show "inRange (foldl dblAdd 0 firstHalf / real (length firstHalf))"
    unfolding q1 using m1 by (intro inRange_between) simp_all
  show "inRange (foldl dblAdd 0 secondHalf / real (length secondHalf))"
    unfolding q2 using m2 by (intro inRange_between) simp_all
  have a1: "firstAvg = toDouble m1" by (simp only: assms(6) q1)
  have a2: "secondAvg = toDouble m2" by (simp only: assms(7) q2)
  have a1b: "1 / 2 \<le> firstAvg" "firstAvg \<le> 2 ^ 54"
    using toDouble_bounds_nonneg [of m1] m1 unfolding a1 by (simp_all add: algebra_simps)
  have a2b: "1 / 2 \<le> secondAvg" "secondAvg \<le> 2 ^ 54"
    using toDouble_bounds_nonneg [of m2] m2 unfolding a2 by (simp_all add: algebra_simps)
  show nz: "firstAvg \<noteq> 0" using a1b by simp
  obtain k1 :: int where k1: "firstAvg = real_of_int k1 / 2 ^ 52"
    unfolding a1 using toDouble_grid [of m1] m1 by auto
  obtain k2 :: int where k2: "secondAvg = real_of_int k2 / 2 ^ 52"
    unfolding a2 using toDouble_grid [of m2] m2 by auto
  define x where "x = secondAvg - firstAvg"
  have xk: "x = real_of_int (k2 - k1) / 2 ^ 52" by (simp add: x_def k1 k2 diff_divide_distrib)
  have xhi: "\<bar>x\<bar> \<le> 2 ^ 54" unfolding x_def using a1b a2b by simp
  have xlo: "1 / 2 ^ 52 \<le> \<bar>x\<bar>" if "x \<noteq> 0"
  proof -
    have "k2 - k1 \<noteq> 0" using that xk by auto
    then have "1 \<le> \<bar>k2 - k1\<bar>" by simp
    then have "1 \<le> \<bar>real_of_int (k2 - k1)\<bar>" by (metis of_int_1_le_iff of_int_abs)
    then show ?thesis unfolding xk by (simp add: divide_right_mono)
  qed
  show "inRange (secondAvg - firstAvg)"
  proof (cases "x = 0")
    case True
    then show ?thesis by (simp add: inRange_def x_def)
  next
    case False
    have "(1 :: real) / 2 ^ 110 \<le> 1 / 2 ^ 52" by simp
    then have "1 / 2 ^ 110 \<le> \<bar>x\<bar>" using xlo [OF False] by linarith
    moreover have "\<bar>x\<bar> \<le> 2 ^ 70" using xhi by simp
    ultimately show ?thesis unfolding x_def [symmetric] by (rule inRange_between)
  qed
  define d where "d = toDouble x"
  define y where "y = d / firstAvg"
  have dy: "dblSub secondAvg firstAvg / firstAvg = y" by (simp add: dblSub_def y_def d_def x_def)
  have dhi: "\<bar>d\<bar> \<le> 2 ^ 55"
    using toDouble_abs_bounds(2) [of x] xhi unfolding d_def by (simp add: algebra_simps)
  have dlo: "1 / 2 ^ 53 \<le> \<bar>d\<bar>" if "x \<noteq> 0"
    using toDouble_abs_bounds(1) [of x] xlo [OF that] unfolding d_def by (simp add: algebra_simps)
  have d0: "d = 0" if "x = 0" using that by (simp add: d_def toDouble_zero)
  have ya: "\<bar>y\<bar> = \<bar>d\<bar> / firstAvg" unfolding y_def using a1b by (simp add: abs_divide)
  have yhi: "\<bar>y\<bar> \<le> 2 ^ 56"
    unfolding ya using dhi a1b by (simp add: pos_divide_le_eq)
  have ylo: "1 / 2 ^ 107 \<le> \<bar>y\<bar>" if "x \<noteq> 0"
  proof -
    have "1 / 2 ^ 107 * firstAvg \<le> 1 / 2 ^ 107 * 2 ^ 54"
      using a1b(2) by (intro mult_left_mono) simp_all
    also have "\<dots> = 1 / 2 ^ 53" by simp
    also have "\<dots> \<le> \<bar>d\<bar>" by (rule dlo [OF that])
    finally show ?thesis unfolding ya using a1b by (simp add: pos_le_divide_eq)
  qed
  show "inRange (dblSub secondAvg firstAvg / firstAvg)"
  proof (cases "x = 0")
    case True
    then show ?thesis unfolding dy by (simp add: y_def d0 inRange_def)
  next
    case False
    have "(1 :: real) / 2 ^ 110 \<le> 1 / 2 ^ 107" by simp
    then have "1 / 2 ^ 110 \<le> \<bar>y\<bar>" using ylo [OF False] by linarith
    moreover have "\<bar>y\<bar> \<le> 2 ^ 70" using yhi by simp
    ultimately show ?thesis unfolding dy by (rule inRange_between)
  qed
  define z where "z = toDouble y * 100"
  have zhi: "\<bar>z\<bar> \<le> 2 ^ 70"
    using toDouble_abs_bounds(2) [of y] yhi unfolding z_def by (simp add: algebra_simps abs_mult)
  have zlo: "1 / 2 ^ 110 \<le> \<bar>z\<bar>" if "x \<noteq> 0"
    using toDouble_abs_bounds(1) [of y] ylo [OF that] unfolding z_def
    by (simp add: algebra_simps abs_mult)
  show "inRange (toDouble (dblSub secondAvg firstAvg / firstAvg) * 100)"
  proof (cases "x = 0")
    case True
    then show ?thesis unfolding dy by (simp add: y_def d0 inRange_def toDouble_zero)
  next
    case False
    show ?thesis unfolding dy z_def [symmetric] using zlo [OF False] zhi by (rule inRange_between)
  qed
qed

subsection \<open>The trend follows the percent change up to rounding\<close>

lemma calculateTrend_change:
  assumes "firstAvg \<noteq> 0"
  shows "dblMul (dblDiv (dblSub secondAvg firstAvg) firstAvg) 100 =
           Num (computedChange firstAvg secondAvg)"
  using assms by (simp add: dblDiv_def dblSub_def computedChange_def)

lemma calculateTrend_counts:
  assumes "2 \<le> length ns" and "\<forall>n \<in> set ns. 1 \<le> n" and "sum_list ns < 2 ^ 53"
  shows "0 < mean (take (length ns div 2) (map real ns))"
    and "0 \<le> mean (drop (length ns div 2) (map real ns))"
    and "calculateTrend (map real ns) =
          (if 10 < computedChange (toDouble (mean (take (length ns div 2) (map real ns))))
                                  (toDouble (mean (drop (length ns div 2) (map real ns))))
           then ''increasing''
           else if computedChange (toDouble (mean (take (length ns div 2) (map real ns))))
                                  (toDouble (mean (drop (length ns div 2) (map real ns)))) < - 10
           then ''decreasing'' else ''stable'')"
proof -
  define h where "h = length ns div 2"
  define vs where "vs = map real ns"
  have h: "1 \<le> h" "h \<le> length ns" using assms(1) by (simp_all add: h_def)
  have tk: "take h vs = map real (take h ns)" by (simp add: vs_def take_map)
  have dr: "drop h vs = map real (drop h ns)" by (simp add: vs_def drop_map)
  have s1: "sum_list (take h ns) < 2 ^ 53"
    using sum_list_take_le [of h ns] assms(3) by simp
  have s2: "sum_list (drop h ns) < 2 ^ 53"
    using sum_list_drop_le [of h ns] assms(3) by simp
  have f1: "foldl dblAdd 0 (take h vs) = sum_list (take h vs)"
    unfolding tk using foldl_dblAdd_sum [OF s1] by (simp add: sum_list_map_real)
  have f2: "foldl dblAdd 0 (drop h vs) = sum_list (drop h vs)"
    unfolding dr using foldl_dblAdd_sum [OF s2] by (simp add: sum_list_map_real)
  have "\<forall>n \<in> set (take h ns). 1 \<le> n" using assms(2) by (auto dest: in_set_takeD)
  then have "length (take h ns) \<le> sum_list (take h ns)" by (rule sum_list_ge_length)
  then have "1 \<le> sum_list (take h ns)" using h by simp
  then have "0 < real (sum_list (take h ns))" by simp
  moreover have "0 < real (length (take h vs))" using h by (simp add: vs_def)
  ultimately show m1: "0 < mean (take (length ns div 2) (map real ns))"
    unfolding mean_def h_def [symmetric] vs_def [symmetric] tk sum_list_map_real
    by (rule divide_pos_pos)
  have "0 \<le> sum_list (drop h vs)" unfolding dr sum_list_map_real by simp
  then show "0 \<le> mean (drop (length ns div 2) (map real ns))"
    unfolding mean_def h_def [symmetric] vs_def [symmetric] by simp
  have a1: "toDouble (mean (take h vs)) \<noteq> 0"
    using toDouble_pos [OF m1] by (simp add: h_def vs_def)
  have len: "\<not> length vs < 2" using assms(1) by (simp add: vs_def)
  have hv: "length vs div 2 = h" by (simp add: vs_def h_def)
  have A1: "foldl dblAdd 0 (take h vs) / real (length (take h vs)) = mean (take h vs)"
    by (simp only: f1 mean_def)
  have A2: "foldl dblAdd 0 (drop h vs) / real (length (drop h vs)) = mean (drop h vs)"
    by (simp only: f2 mean_def)
  have "calculateTrend vs =
          (if 10 < computedChange (toDouble (mean (take h vs))) (toDouble (mean (drop h vs)))
           then ''increasing''
           else if computedChange (toDouble (mean (take h vs))) (toDouble (mean (drop h vs))) < - 10
           then ''decreasing'' else ''stable'')"
    unfolding calculateTrend_def Let_def hv A1 A2 calculateTrend_change [OF a1]
    using len by (simp only: if_False js_less.simps)
  then show "calculateTrend (map real ns) =
          (if 10 < computedChange (toDouble (mean (take (length ns div 2) (map real ns))))
                                  (toDouble (mean (drop (length ns div 2) (map real ns))))
           then ''increasing''
           else if computedChange (toDouble (mean (take (length ns div 2) (map real ns))))
                                  (toDouble (mean (drop (length ns div 2) (map real ns)))) < - 10
           then ''decreasing'' else ''stable'')"
    by (simp only: h_def vs_def)
qed

lemma trend_of_counts:
  assumes "2 \<le> length ns" and "\<forall>n \<in> set ns. 1 \<le> n" and "sum_list ns < 2 ^ 53"
    and "pc = percentChange (mean (take (length ns div 2) (map real ns)))
                            (mean (drop (length ns div 2) (map real ns)))"
  shows "\<exists>c :: real. calculateTrend (map real ns) =
               (if 10 < c then ''increasing'' else if c < - 10 then ''decreasing'' else ''stable'') \<and>
             (10 + 1 / 10 ^ 12 \<le> pc \<longrightarrow> 10 < c) \<and>
             (pc \<le> 10 - 1 / 10 ^ 12 \<longrightarrow> c \<le> 10) \<and>
             (pc \<le> - 10 - 1 / 10 ^ 12 \<longrightarrow> c < - 10) \<and>
             (- 10 + 1 / 10 ^ 12 \<le> pc \<longrightarrow> - 10 \<le> c)"
proof -
  define m1 where "m1 = mean (take (length ns div 2) (map real ns))"
  define m2 where "m2 = mean (drop (length ns div 2) (map real ns))"
  define c where "c = computedChange (toDouble m1) (toDouble m2)"
  have m1: "0 < m1" and m2: "0 \<le> m2"
    unfolding m1_def m2_def using calculateTrend_counts(1,2) [OF assms(1-3)] by simp_all
  have ct: "calculateTrend (map real ns) =
      (if 10 < c then ''increasing'' else if c < - 10 then ''decreasing'' else ''stable'')"
    unfolding c_def m1_def m2_def by (rule calculateTrend_counts(3) [OF assms(1-3)])
  have eq: "m2 = (1 + pc / 100) * m1"
    using m1 by (simp add: assms(4) percentChange_def field_simps flip: m1_def m2_def)
  have above: "10 < c" if "10 + 1 / 10 ^ 12 \<le> pc"
  proof -
    have "(1 + (10 + 1 / 10 ^ 12) / 100) * m1 \<le> (1 + pc / 100) * m1"
      using m1 that by (intro mult_right_mono) simp_all
    then show ?thesis unfolding c_def using change_above [OF m1] eq by simp
  qed
  have at_most: "c \<le> 10" if "pc \<le> 10 - 1 / 10 ^ 12"
  proof -
    have "(1 + pc / 100) * m1 \<le> (1 + (10 - 1 / 10 ^ 12) / 100) * m1"
      using m1 that by (intro mult_right_mono) simp_all
    then show ?thesis unfolding c_def using change_at_most [OF m1 m2] eq by simp
  qed
  have below: "c < - 10" if "pc \<le> - 10 - 1 / 10 ^ 12"
  proof -
    have "(1 + pc / 100) * m1 \<le> (1 - (10 + 1 / 10 ^ 12) / 100) * m1"
      using m1 that by (intro mult_right_mono) simp_all
    then show ?thesis unfolding c_def using change_below [OF m1 m2] eq by simp
  qed
  have at_least: "- 10 \<le> c" if "- 10 + 1 / 10 ^ 12 \<le> pc"
  proof -
    have "(1 - (10 - 1 / 10 ^ 12) / 100) * m1 \<le> (1 + pc / 100) * m1"
      using m1 that by (intro mult_right_mono) simp_all
    then show ?thesis unfolding c_def using change_at_least [OF m1] eq by simp
  qed
  from ct above at_most below at_least show ?thesis by blast
qed

lemma trend_short_list: "length vs < 2 \<Longrightarrow> calculateTrend vs = ''stable''"
  by (simp add: calculateTrend_def)

lemma trend_cases:
  assumes "t = (if 10 < (c :: real) then ''increasing''
                else if c < - 10 then ''decreasing'' else ''stable'')"
  shows "10 < c \<Longrightarrow> t = ''increasing''"
    and "c < - 10 \<Longrightarrow> t = ''decreasing''"
    and "- 10 \<le> c \<Longrightarrow> c \<le> 10 \<Longrightarrow> t = ''stable''"
    and "t = ''increasing'' \<Longrightarrow> 10 < c"
    and "t = ''decreasing'' \<Longrightarrow> c < - 10"
    and "t = ''stable'' \<Longrightarrow> - 10 \<le> c \<and> c \<le> 10"
  using assms by (simp_all split: if_splits)

text \<open>
  Claim C8, with the thresholds read up to rounding: for the daily totals of fewer than
  \<open>2\<^sup>5\<^sup>3\<close> records (an array holds fewer than \<open>2\<^sup>3\<^sup>2\<close>), \<open>calculateTrend\<close> returns \<^verbatim>\<open>stable\<close> for
  fewer than 2 values (this for any list); otherwise, \<open>pc\<close> being the exact percent change from
  the mean of the first \<open>\<lfloor>n / 2\<rfloor>\<close> values to the mean of the others, it returns
  \<^verbatim>\<open>increasing\<close> whenever \<open>pc \<ge> 10 + 10\<^sup>-\<^sup>1\<^sup>2\<close>, \<^verbatim>\<open>decreasing\<close> whenever \<open>pc \<le> -10 - 10\<^sup>-\<^sup>1\<^sup>2\<close>, and
  \<^verbatim>\<open>stable\<close> whenever \<open>-10 + 10\<^sup>-\<^sup>1\<^sup>2 \<le> pc \<le> 10 - 10\<^sup>-\<^sup>1\<^sup>2\<close>. Conversely \<^verbatim>\<open>increasing\<close> is returned
  only for \<open>pc > 10 - 10\<^sup>-\<^sup>1\<^sup>2\<close>, \<^verbatim>\<open>decreasing\<close> only for \<open>pc < -10 + 10\<^sup>-\<^sup>1\<^sup>2\<close>, and \<^verbatim>\<open>stable\<close> only
  for \<open>-10 - 10\<^sup>-\<^sup>1\<^sup>2 < pc < 10 + 10\<^sup>-\<^sup>1\<^sup>2\<close>. Within \<open>10\<^sup>-\<^sup>1\<^sup>2\<close> of a threshold the rounding of the
  five operations decides.
\<close>

theorem trend_by_percent_change_up_to_rounding:
  assumes "length stamps < 2 ^ 53"
    and "values = dailyTotals stamps"
    and "pc = percentChange (mean (take (length values div 2) values))
                            (mean (drop (length values div 2) values))"
  shows "(length vs < 2 \<longrightarrow> calculateTrend vs = ''stable'') \<and>
         (2 \<le> length values \<longrightarrow>
            (10 + 1 / 10 ^ 12 \<le> pc \<longrightarrow> calculateTrend values = ''increasing'') \<and>
            (pc \<le> - 10 - 1 / 10 ^ 12 \<longrightarrow> calculateTrend values = ''decreasing'') \<and>
            (- 10 + 1 / 10 ^ 12 \<le> pc \<and> pc \<le> 10 - 1 / 10 ^ 12 \<longrightarrow>
               calculateTrend values = ''stable'') \<and>
            (calculateTrend values = ''increasing'' \<longrightarrow> 10 - 1 / 10 ^ 12 < pc) \<and>
            (calculateTrend values = ''decreasing'' \<longrightarrow> pc < - 10 + 1 / 10 ^ 12) \<and>
            (calculateTrend values = ''stable'' \<longrightarrow>
               - 10 - 1 / 10 ^ 12 < pc \<and> pc < 10 + 1 / 10 ^ 12))"
proof (intro conjI impI)
  assume "length vs < 2"
  then show "calculateTrend vs = ''stable''" by (rule trend_short_list)
next
  define ns where "ns = map snd (foldl countDay [] stamps)"
  have vs: "values = map real ns" by (simp add: assms(2) dailyTotals_counts ns_def)
  have pos: "\<forall>n \<in> set ns. 1 \<le> n" using dailyData_positive [of stamps] by (simp add: ns_def)
  have "sum_list ns = length stamps" using dailyData_invariant [of stamps] by (simp add: ns_def)
  then have sm: "sum_list ns < 2 ^ 53" using assms(1) by simp
  have pc: "pc = percentChange (mean (take (length ns div 2) (map real ns)))
                               (mean (drop (length ns div 2) (map real ns)))"
    by (simp add: assms(3) vs)
  assume "2 \<le> length values"
  then have len: "2 \<le> length ns" by (simp add: vs)
  from trend_of_counts [OF len pos sm pc] obtain c :: real where
    ct: "calculateTrend values =
           (if 10 < c then ''increasing'' else if c < - 10 then ''decreasing'' else ''stable'')"
    and above: "10 + 1 / 10 ^ 12 \<le> pc \<longrightarrow> 10 < c"
    and at_most: "pc \<le> 10 - 1 / 10 ^ 12 \<longrightarrow> c \<le> 10"
    and below: "pc \<le> - 10 - 1 / 10 ^ 12 \<longrightarrow> c < - 10"
    and at_least: "- 10 + 1 / 10 ^ 12 \<le> pc \<longrightarrow> - 10 \<le> c"
    unfolding vs by blast
  note T = trend_cases [OF ct]
  show "10 + 1 / 10 ^ 12 \<le> pc \<Longrightarrow> calculateTrend values = ''increasing''"
    using above T(1) by blast
  show "pc \<le> - 10 - 1 / 10 ^ 12 \<Longrightarrow> calculateTrend values = ''decreasing''"
    using below T(2) by blast
  show "- 10 + 1 / 10 ^ 12 \<le> pc \<and> pc \<le> 10 - 1 / 10 ^ 12 \<Longrightarrow>
        calculateTrend values = ''stable''"
    using at_least at_most T(3) by blast
  show "calculateTrend values = ''increasing'' \<Longrightarrow> 10 - 1 / 10 ^ 12 < pc"
    using T(4) at_most by fastforce
  show "calculateTrend values = ''decreasing'' \<Longrightarrow> pc < - 10 + 1 / 10 ^ 12"
    using T(5) at_least by fastforce
  show "calculateTrend values = ''stable'' \<Longrightarrow> - 10 - 1 / 10 ^ 12 < pc"
    using T(6) below by fastforce
  show "calculateTrend values = ''stable'' \<Longrightarrow> pc < 10 + 1 / 10 ^ 12"
    using T(6) above by fastforce
qed

theorem trend_by_percent_change_up_to_rounding_witness:
  "length [0, 1000, 86400000, 86400001, 86400002 :: int] < 2 ^ 53 \<and>
   dailyTotals [0, 1000, 86400000, 86400001, 86400002] = [2, 3] \<and>
   percentChange (mean [2]) (mean [3]) = 50 \<and>
   calculateTrend (dailyTotals [0, 1000, 86400000, 86400001, 86400002]) = ''increasing''"
proof -
  have l: "length [0, 1000, 86400000, 86400001, 86400002 :: int] < 2 ^ 53" by simp
  have totals: "dailyTotals [0, 1000, 86400000, 86400001, 86400002] = [2, 3]"
    by (simp add: dailyTotals_def countDay_def dayOf_def)
  have pc: "percentChange (mean [2]) (mean [3]) = 50"
    by (simp add: percentChange_def mean_def)
  have pc': "50 = percentChange (mean (take (length [2, 3 :: real] div 2) [2, 3]))
                                (mean (drop (length [2, 3 :: real] div 2) [2, 3]))"
    using pc by simp
  have two: "2 \<le> length [2, 3 :: real]" by simp
  have big: "10 + 1 / 10 ^ 12 \<le> (50 :: real)" by simp
  note T = trend_by_percent_change_up_to_rounding [OF l totals [symmetric] pc', of "[]"]
  have "calculateTrend [2, 3] = ''increasing''"
    by (rule T [THEN conjunct2, THEN mp, OF two, THEN conjunct1, THEN mp, OF big])
  then have "calculateTrend (dailyTotals [0, 1000, 86400000, 86400001, 86400002]) = ''increasing''"
    by (simp only: totals)
  with l totals pc show ?thesis by (intro conjI)
qed

subsection \<open>At a threshold the rounding decides\<close>

lemma toDouble_3: "toDouble 3 = 3" using toDouble_of_nat [of 3] by simp
lemma toDouble_6: "toDouble 6 = 6" using toDouble_of_nat [of 6] by simp
lemma toDouble_9: "toDouble 9 = 9" using toDouble_of_nat [of 9] by simp
lemma toDouble_10: "toDouble 10 = 10" using toDouble_of_nat [of 10] by simp

lemma toDouble_ten_thirds: "toDouble (10 / 3) = 7505999378950827 / 2 ^ 51"
  by (subst toDouble_eval_up [where k = 1]) (simp_all add: roundHalfEven_def)

lemma toDouble_difference:
  "toDouble (3 - 7505999378950827 / 2 ^ 51) = - (750599937895083 / 2 ^ 51)"
  by (subst toDouble_eval_down [where k = 2]) (simp_all add: roundHalfEven_def)

lemma toDouble_quotient:
  "toDouble (- (750599937895083 / 2 ^ 51) / (7505999378950827 / 2 ^ 51)) =
     - (7205759403792796 / 2 ^ 56)"
  by (subst toDouble_eval_down [where k = 4]) (simp_all add: roundHalfEven_def)

lemma toDouble_product:
  "toDouble (- (7205759403792796 / 2 ^ 56) * 100) = - (5629499534213122 / 2 ^ 49)"
  by (subst toDouble_eval_up [where k = 3]) (simp_all add: roundHalfEven_def)

lemma trend_boundary: "calculateTrend [3, 3, 4, 3, 3, 3] = ''decreasing''"
proof -
  let ?vs = "[3, 3, 4, 3, 3, 3] :: real list"
  let ?a1 = "7505999378950827 / 2 ^ 51 :: real"
  have len: "\<not> length ?vs < 2" by simp
  have fh: "take (length ?vs div 2) ?vs = [3, 3, 4]" by simp
  have sh: "drop (length ?vs div 2) ?vs = [3, 3, 3]" by simp
  have s1: "foldl dblAdd 0 [3, 3, 4] = 10"
    by (simp add: dblAdd_def toDouble_3 toDouble_6 toDouble_10)
  have s2: "foldl dblAdd 0 [3, 3, 3] = 9"
    by (simp add: dblAdd_def toDouble_3 toDouble_6 toDouble_9)
  have fa: "toDouble (foldl dblAdd 0 [3, 3, 4] / real (length [3, 3, 4 :: real])) = ?a1"
    unfolding s1 using toDouble_ten_thirds by simp
  have sa: "toDouble (foldl dblAdd 0 [3, 3, 3] / real (length [3, 3, 3 :: real])) = 3"
    unfolding s2 using toDouble_3 by simp
  have nz: "(?a1 \<noteq> 0) = True" by simp
  have ch: "dblMul (dblDiv (dblSub 3 ?a1) ?a1) 100 = Num (- (5629499534213122 / 2 ^ 49))"
    by (simp only: dblSub_def dblDiv_def nz if_True toDouble_difference toDouble_quotient
        dblMul.simps toDouble_product)
  have cmp: "\<not> js_less (Num 10) (Num (- (5629499534213122 / 2 ^ 49)))"
    "js_less (Num (- (5629499534213122 / 2 ^ 49))) (Num (- 10))"
    by simp_all
  show ?thesis
    unfolding calculateTrend_def Let_def fh sh fa sa ch using len cmp by (simp only: if_False if_True)
qed

text \<open>
  Claim C8 at a concrete input: nineteen records on six days, with the daily totals
  \<open>3, 3, 4, 3, 3, 3\<close>. The means are \<open>10 / 3\<close> and \<open>3\<close> and the percent change is \<open>-10\<close>
  exactly, which is not below \<open>-10\<close>; the code rounds \<open>10 / 3\<close> up, computes
  \<open>-10.000000000000004\<close>, and returns \<^verbatim>\<open>decreasing\<close>.
\<close>

theorem trend_at_minus_ten_percent_counterexample:
  "dailyTotals [0, 1, 2,
                86400000, 86400001, 86400002,
                172800000, 172800001, 172800002, 172800003,
                259200000, 259200001, 259200002,
                345600000, 345600001, 345600002,
                432000000, 432000001, 432000002] = [3, 3, 4, 3, 3, 3] \<and>
   percentChange (mean [3, 3, 4]) (mean [3, 3, 3]) = - 10 \<and>
   calculateTrend (dailyTotals [0, 1, 2,
                86400000, 86400001, 86400002,
                172800000, 172800001, 172800002, 172800003,
                259200000, 259200001, 259200002,
                345600000, 345600001, 345600002,
                432000000, 432000001, 432000002]) = ''decreasing''"
proof -
  have totals: "dailyTotals [0, 1, 2,
                86400000, 86400001, 86400002,
                172800000, 172800001, 172800002, 172800003,
                259200000, 259200001, 259200002,
                345600000, 345600001, 345600002,
                432000000, 432000001, 432000002] = [3, 3, 4, 3, 3, 3]"
    by (simp add: dailyTotals_def countDay_def dayOf_def)
  have pc: "percentChange (mean [3, 3, 4]) (mean [3, 3, 3]) = - 10"
    by (simp add: percentChange_def mean_def)
  show ?thesis unfolding totals using pc trend_boundary by (intro conjI) simp_all
qed

text \<open>
  Where the first-half mean is zero the percent change is not defined; the code follows
  the quotient of the machine there, which is infinite for a positive second-half mean. A
  list of daily totals never has a zero among its values.
\<close>

lemma trend_zero_first_half: "calculateTrend [0, 5] = ''increasing''"
proof -
  have "toDouble 5 = 5" using toDouble_of_nat [of 5] by simp
  then show ?thesis
    by (simp add: calculateTrend_def dblAdd_def dblSub_def dblDiv_def toDouble_zero)
qed

section \<open>Properties: aggregating the four feeds\<close>

subsection \<open>What the aggregation keeps, and when it is sorted\<close>

lemma mset_insertLeftward: "mset (insertLeftward c x ys) = add_mset x (mset ys)"
  by (induction ys) simp_all

lemma mset_jsSort: "mset (jsSort comparefn xs) = mset xs"
proof -
  have "mset (foldl (\<lambda>sortedRev x. insertLeftward c x sortedRev) acc xs) = mset acc + mset xs"
    for c :: "'a \<Rightarrow> 'a \<Rightarrow> real" and acc
    by (induction xs arbitrary: acc) (simp_all add: mset_insertLeftward)
  then show ?thesis by (simp add: jsSort_def)
qed

lemma set_insertLeftward: "set (insertLeftward c x ys) = insert x (set ys)"
  by (induction ys) auto

lemma sortCompare_timed:
  "time a = Some ta \<Longrightarrow> time b = Some tb \<Longrightarrow>
   sortCompare timeComparator a b = real_of_int (tb - ta)"
  by (simp add: sortCompare_def timeComparator_def)

lemma insertLeftward_ascending:
  assumes "\<forall>d \<in> set (x # rs). time d \<noteq> None"
    and "sorted_wrt (\<lambda>p q. the (time p) \<le> the (time q)) rs"
  shows "sorted_wrt (\<lambda>p q. the (time p) \<le> the (time q))
           (insertLeftward (sortCompare timeComparator) x rs)"
  using assms
proof (induction rs)
  case Nil
  then show ?case by simp
next
  case (Cons y ys)
  from Cons.prems(1) obtain tx ty where t: "time x = Some tx" "time y = Some ty" by auto
  have c: "sortCompare timeComparator y x = real_of_int (tx - ty)"
    using t by (simp add: sortCompare_timed)
  show ?case
  proof (cases "ty < tx")
    case True
    have "sorted_wrt (\<lambda>p q. the (time p) \<le> the (time q))
            (insertLeftward (sortCompare timeComparator) x ys)"
      using Cons by simp
    then show ?thesis
      using True c t Cons.prems(2) by (auto simp: set_insertLeftward)
  next
    case False
    then show ?thesis
      using c t Cons.prems(2) by auto
  qed
qed

lemma jsSort_descending:
  assumes "\<forall>d \<in> set xs. time d \<noteq> None"
  shows "descendingByTime (jsSort timeComparator xs)"
proof -
  let ?step = "\<lambda>sortedRev x. insertLeftward (sortCompare timeComparator) x sortedRev"
  have inv: "sorted_wrt (\<lambda>p q. the (time p) \<le> the (time q)) (foldl ?step acc ys) \<and>
             set (foldl ?step acc ys) = set acc \<union> set ys"
    if "\<forall>d \<in> set acc \<union> set ys. time d \<noteq> None"
       "sorted_wrt (\<lambda>p q. the (time p) \<le> the (time q)) acc" for acc ys
    using that
  proof (induction ys arbitrary: acc)
    case Nil
    then show ?case by simp
  next
    case (Cons y ys)
    have "sorted_wrt (\<lambda>p q. the (time p) \<le> the (time q)) (?step acc y)"
      using Cons.prems by (intro insertLeftward_ascending) auto
    moreover have "\<forall>d \<in> set (?step acc y) \<union> set ys. time d \<noteq> None"
      using Cons.prems(1) by (auto simp: set_insertLeftward)
    ultimately show ?case
      using Cons.IH [of "?step acc y"] by (auto simp: set_insertLeftward)
  qed
  let ?rs = "foldl ?step [] xs"
  have asc: "sorted_wrt (\<lambda>p q. the (time p) \<le> the (time q)) ?rs"
    and mem: "set ?rs = set xs"
    using inv [of "[]" xs] assms by simp_all
  have timed: "\<forall>d \<in> set (rev ?rs). time d \<noteq> None" using mem assms by simp
  have "sorted_wrt (\<lambda>a b. the (time a) \<ge> the (time b)) (rev ?rs)"
    using asc by (simp add: sorted_wrt_rev)
  then have "sorted_wrt (\<lambda>a b. case (time a, time b) of
                          (Some ta, Some tb) \<Rightarrow> ta \<ge> tb
                        | _ \<Rightarrow> False) (rev ?rs)"
    using timed by (elim sorted_wrt_mono_rel [rotated]) (fastforce split: option.splits)
  then show ?thesis by (simp add: descendingByTime_def jsSort_def)
qed

text \<open>
  The aggregation never drops or adds a record; and when every record it is given has a
  \<^verbatim>\<open>time\<close>, the result is in descending order of time.
\<close>

lemma aggregation_keeps_every_record:
  "\<exists>r. getAllDisasters eq wa ts vo = Success r \<and>
        mset (allData r) = mset (pushFeed (pushFeed (pushFeed (pushFeed [] eq) wa) ts) vo) \<and>
        allCount r = length (allData r)"
  by (simp add: getAllDisasters_def Let_def mset_jsSort)

lemma aggregation_sorted_when_timed:
  assumes "\<forall>d \<in> set (pushFeed (pushFeed (pushFeed (pushFeed [] eq) wa) ts) vo). time d \<noteq> None"
  shows "\<exists>r. getAllDisasters eq wa ts vo = Success r \<and> descendingByTime (allData r)"
  using jsSort_descending [OF assms] by (simp add: getAllDisasters_def Let_def)

text \<open>
  Claim C4 at a concrete input: the volcano feed rejects, the other three succeed with one
  record each. The result is the three records, but the earthquake of time 100 precedes
  the tsunami of time 200: the weather alert between them has no \<^verbatim>\<open>time\<close>, the comparator
  answers \<^verbatim>\<open>NaN\<close> for it, and no element moves.
\<close>

theorem aggregation_with_weather_alert_not_sorted:
  "getAllDisasters
     (Fulfilled (Success [earthquakeRecord \<lparr>featureId = ''us1'', featureTime = 100\<rparr>]))
     (Fulfilled (Success [weatherAlertRecord ''weather_Tokyo_1'']))
     (Fulfilled (Success [tsunamiRecord \<lparr>featureId = ''us2'', featureTime = 200\<rparr>]))
     (Rejected ''timeout of 10000ms exceeded'') =
   Success \<lparr>allData = [earthquakeRecord \<lparr>featureId = ''us1'', featureTime = 100\<rparr>,
                       weatherAlertRecord ''weather_Tokyo_1'',
                       tsunamiRecord \<lparr>featureId = ''us2'', featureTime = 200\<rparr>],
            allCount = 3\<rparr> \<and>
   \<not> descendingByTime [earthquakeRecord \<lparr>featureId = ''us1'', featureTime = 100\<rparr>,
                       weatherAlertRecord ''weather_Tokyo_1'',
                       tsunamiRecord \<lparr>featureId = ''us2'', featureTime = 200\<rparr>]"
  by (simp add: getAllDisasters_def pushFeed_def jsSort_def sortCompare_def timeComparator_def
      earthquakeRecord_def weatherAlertRecord_def tsunamiRecord_def descendingByTime_def)

end
